theory Spec2Isabelle
  imports Main "HOL-Library.Word"
begin

section \<open>JavaScript strings and values\<close>

text \<open>
  A JavaScript string is a sequence of UTF-16 code units. String literals of the source
  are written \<open>lit ''...''\<close>; the one character of the source outside ASCII (the dash in
  the synthesizer instruction) is given by its code unit.
\<close>

type_synonym jschar = "16 word"
type_synonym jsstring = "jschar list"

definition lit :: "string \<Rightarrow> jsstring" where
  "lit s = map of_char s"

text \<open>
  \<open>String.prototype.trim\<close> removes the code points of ECMAScript's WhiteSpace and
  LineTerminator productions from both ends.
\<close>

definition isWhiteSpace :: "jschar \<Rightarrow> bool" where
  "isWhiteSpace c \<longleftrightarrow>
     c \<in> set [0x0009, 0x000A, 0x000B, 0x000C, 0x000D, 0x0020, 0x00A0, 0x1680,
              0x2000, 0x2001, 0x2002, 0x2003, 0x2004, 0x2005, 0x2006, 0x2007,
              0x2008, 0x2009, 0x200A, 0x2028, 0x2029, 0x202F, 0x205F, 0x3000, 0xFEFF]"

definition trim :: "jsstring \<Rightarrow> jsstring" where
  "trim s = rev (dropWhile isWhiteSpace (rev (dropWhile isWhiteSpace s)))"

text \<open>
  The values a parsed JSON document or a provider SDK can hand to the program, and
  \<open>undefined\<close>. Of a number the program can observe two things, the string that
  \<open>Number::toString\<close> yields for it and whether it is falsy; the second follows from the
  first (\<open>0\<close>, which is also the string of \<open>-0\<close>, and \<open>NaN\<close>). So \<open>JNum s\<close> is the
  number whose string is \<open>s\<close>, whatever its magnitude and digits. An object is its list of
  members in document order; \<open>JSON.parse\<close> lets the last of several members with one name
  win.
\<close>

datatype jsval =
    JUndefined
  | JNull
  | JBool bool
  | JNum jsstring
  | JStr jsstring
  | JArr "jsval list"
  | JObj "(jsstring \<times> jsval) list"

text \<open>
  The decimal digits of a natural number: the string of a loop counter and the property
  key of an index. (\<open>Number::toString\<close> prints every non-negative integer below \<open>2 ^ 53\<close>
  so; the program's counters run from 1 to 4, and the one index it reads is 0.)
\<close>

fun digits :: "nat \<Rightarrow> jsstring" where
  "digits n = (if n < 10 then [of_nat (48 + n)]
               else digits (n div 10) @ [of_nat (48 + n mod 10)])"

declare digits.simps [simp del]

fun intercalate :: "jsstring \<Rightarrow> jsstring list \<Rightarrow> jsstring" where
  "intercalate sep [] = []"
| "intercalate sep [x] = x"
| "intercalate sep (x # y # ys) = x @ sep @ intercalate sep (y # ys)"

text \<open>
  What a \<open>throw\<close> or a rejected promise carries: an instance of \<open>Error\<close> (of some class,
  with its message) or a value that is no instance of \<open>Error\<close>.
\<close>

datatype error_class = Error | TypeError | SyntaxError | OtherError

datatype thrown = Exception error_class jsstring | NonError

text \<open>Sequencing of steps that may throw: the first throw is the outcome.\<close>

definition andThen :: "thrown + 'a \<Rightarrow> ('a \<Rightarrow> thrown + 'b) \<Rightarrow> thrown + 'b" where
  "andThen r f = (case r of Inl e \<Rightarrow> Inl e | Inr x \<Rightarrow> f x)"

fun collect :: "(thrown + 'a) list \<Rightarrow> thrown + 'a list" where
  "collect [] = Inr []"
| "collect (r # rs) =
     (case r of
        Inl e \<Rightarrow> Inl e
      | Inr x \<Rightarrow> (case collect rs of Inl e \<Rightarrow> Inl e | Inr xs \<Rightarrow> Inr (x # xs)))"

text \<open>
  \<open>ToString\<close>, which a template literal applies to each substitution. An array is
  converted by \<open>Array.prototype.join\<close>, which takes \<open>undefined\<close> and \<open>null\<close> elements as
  the empty string and converts the others in order. An object parsed from JSON is
  converted by \<open>Object.prototype.toString\<close>, unless it has a member of its own named
  \<open>toString\<close>: that member is no function, \<open>valueOf\<close> yields no primitive either, and
  the conversion throws a \<open>TypeError\<close> (the message is V8's wording).
\<close>

definition cannotConvert :: thrown where
  "cannotConvert = Exception TypeError (lit ''Cannot convert object to primitive value'')"

fun toString :: "jsval \<Rightarrow> thrown + jsstring" where
  "toString JUndefined = Inr (lit ''undefined'')"
| "toString JNull = Inr (lit ''null'')"
| "toString (JBool b) = Inr (if b then lit ''true'' else lit ''false'')"
| "toString (JNum s) = Inr s"
| "toString (JStr s) = Inr s"
| "toString (JArr xs) =
     (case collect (map (\<lambda>x. if x = JUndefined \<or> x = JNull then Inr [] else toString x) xs) of
        Inl e \<Rightarrow> Inl e
      | Inr ts \<Rightarrow> Inr (intercalate (lit '','') ts))"
| "toString (JObj kvs) =
     (if lit ''toString'' \<in> fst ` set kvs then Inl cannotConvert
      else Inr (lit ''[object Object]''))"

definition join :: "jsval list \<Rightarrow> jsstring \<Rightarrow> thrown + jsstring" where
  "join xs sep =
     (case collect (map (\<lambda>x. if x = JUndefined \<or> x = JNull then Inr [] else toString x) xs) of
        Inl e \<Rightarrow> Inl e
      | Inr ts \<Rightarrow> Inr (intercalate sep ts))"

text \<open>Truthiness, as tested by \<open>!x\<close>, \<open>if (x)\<close> and \<open>x || y\<close>.\<close>

fun truthy :: "jsval \<Rightarrow> bool" where
  "truthy JUndefined = False"
| "truthy JNull = False"
| "truthy (JBool b) = b"
| "truthy (JNum s) = (s \<noteq> lit ''0'' \<and> s \<noteq> lit ''NaN'')"
| "truthy (JStr s) = (s \<noteq> [])"
| "truthy (JArr xs) = True"
| "truthy (JObj kvs) = True"

text \<open>
  Reading a property. Reading from \<open>undefined\<close> or \<open>null\<close> throws a \<open>TypeError\<close> (the
  message is V8's wording); an object yields its member of that name or \<open>undefined\<close>.
  The names the program reads (\<open>error\<close>, \<open>message\<close>, \<open>choices\<close>, \<open>content\<close>) are defined
  on no prototype, so every other value yields \<open>undefined\<close> for them.
\<close>

definition cannotRead :: "jsstring \<Rightarrow> jsstring \<Rightarrow> thrown" where
  "cannotRead v name =
     Exception TypeError
       (lit ''Cannot read properties of '' @ v @ lit '' (reading ''
          @ [0x27] @ name @ [0x27] @ lit '')'')"

fun member :: "jsval \<Rightarrow> jsstring \<Rightarrow> thrown + jsval" where
  "member JUndefined name = Inl (cannotRead (lit ''undefined'') name)"
| "member JNull name = Inl (cannotRead (lit ''null'') name)"
| "member (JObj kvs) name =
     Inr (case map_of (rev kvs) name of None \<Rightarrow> JUndefined | Some v \<Rightarrow> v)"
| "member v name = Inr JUndefined"

text \<open>
  Reading index \<open>i\<close>: an array yields its element, a string the one-unit string at that
  position, an object its member named by the digits of \<open>i\<close>; out of range is
  \<open>undefined\<close>.
\<close>

fun element :: "jsval \<Rightarrow> nat \<Rightarrow> thrown + jsval" where
  "element JUndefined i = Inl (cannotRead (lit ''undefined'') (digits i))"
| "element JNull i = Inl (cannotRead (lit ''null'') (digits i))"
| "element (JArr xs) i = Inr (if i < length xs then xs ! i else JUndefined)"
| "element (JStr s) i = Inr (if i < length s then JStr [s ! i] else JUndefined)"
| "element (JObj kvs) i = member (JObj kvs) (digits i)"
| "element v i = Inr JUndefined"

text \<open>Optional chaining \<open>v?.name\<close>: \<open>undefined\<close> when \<open>v\<close> is \<open>undefined\<close> or \<open>null\<close>.\<close>

definition optionalMember :: "jsval \<Rightarrow> jsstring \<Rightarrow> thrown + jsval" where
  "optionalMember v name = (if v = JUndefined \<or> v = JNull then Inr JUndefined else member v name)"

text \<open>Indexing an array of the program itself (\<open>xs[i]\<close>).\<close>

definition at :: "jsval list \<Rightarrow> nat \<Rightarrow> jsval" where
  "at xs i = (if i < length xs then xs ! i else JUndefined)"

section \<open>Constants and data of the application\<close>

definition DEFAULT_MODEL_NAME :: jsstring where
  "DEFAULT_MODEL_NAME = lit ''gemini-2.5-flash''"

definition STRATEGIST_SYSTEM_INSTRUCTION :: jsstring where
  "STRATEGIST_SYSTEM_INSTRUCTION = lit ''You are a master strategist AI. Your task is to analyze the user's query and create a detailed, step-by-step plan for how a team of AI agents should approach answering it. Identify key areas to research, potential ambiguities to clarify, and the best structure for the final response. This plan will guide the other agents.''"

definition INITIAL_SYSTEM_INSTRUCTION :: jsstring where
  "INITIAL_SYSTEM_INSTRUCTION = lit ''You are an expert-level AI assistant. Your task is to provide a comprehensive, accurate, and well-reasoned initial response to the user's query, strictly following the provided execution plan. Aim for clarity and depth. Note: Your response is an intermediate step for other AI agents and will not be shown to the user. Be concise and focus on core information without unnecessary verbosity.''"

definition REFINEMENT_SYSTEM_INSTRUCTION :: jsstring where
  "REFINEMENT_SYSTEM_INSTRUCTION = lit ''You are a reflective AI agent. Your primary task is to find flaws. Critically analyze your previous response and the responses from other AI agents, considering the original execution plan. Focus specifically on identifying factual inaccuracies, logical fallacies, omissions, or any other weaknesses. Your goal is to generate a new, revised response that corrects these specific errors and is free from the flaws you have identified. Note: This refined response is for a final synthesizer agent, not the user, so be direct and prioritize accuracy over conversational style.''"

definition SYNTHESIZER_SYSTEM_INSTRUCTION :: jsstring where
  "SYNTHESIZER_SYSTEM_INSTRUCTION =
     lit ''You are a master synthesizer AI. Your PRIMARY GOAL is to write the final, complete response to the user's query. You will be given the user's query, an execution plan, and four refined responses from other AI agents. Your task is to analyze these responses''
     @ [0x2014] @ lit ''identifying their strengths to incorporate and their flaws to discard''
     @ [0x2014] @ lit ''while ensuring the final output aligns with the initial plan. Use this analysis to construct the single best possible answer for the user. Do not just critique the other agents; your output should BE the final, polished response.''"

datatype ApiProvider = google | groq | openrouter

fun providerName :: "ApiProvider \<Rightarrow> jsstring" where
  "providerName google = lit ''google''"
| "providerName groq = lit ''groq''"
| "providerName openrouter = lit ''openrouter''"

record api_keys =
  google_key :: jsstring
  groq_key :: jsstring
  openrouter_key :: jsstring

record settings =
  provider :: ApiProvider
  model :: jsstring
  keys :: api_keys

text \<open>
  \<open>Message\<close> and the SDK's \<open>Content\<close> have one shape: a role and a list of parts, each
  part holding a text. The text is typed \<open>string\<close> in the source; at run time it is
  whatever value the provider returned.
\<close>

record part =
  part_text :: jsval

record Content =
  role :: jsstring
  parts :: "part list"

type_synonym Message = Content

section \<open>The outside world\<close>

record generateContentParams =
  g_apiKey :: jsstring
  g_model :: jsstring
  g_contents :: "Content list"
  g_systemInstruction :: jsstring

record api_message =
  m_role :: jsstring
  m_content :: jsstring

record chat_body =
  b_model :: jsstring
  b_messages :: "api_message list"

record http_request =
  url :: jsstring
  http_method :: jsstring
  headers :: "(jsstring \<times> jsstring) list"
  body :: chat_body

text \<open>
  Of a response the program reads \<open>ok\<close>, which holds for the status codes 200 to 299,
  and the outcome of \<open>response.json()\<close>: the parsed body, or the error with which the
  promise rejects when the body is not JSON.
\<close>

record http_response =
  status :: nat
  json :: "thrown + jsval"

definition ok :: "http_response \<Rightarrow> bool" where
  "ok response \<longleftrightarrow> 200 \<le> status response \<and> status response \<le> 299"

datatype outbound = GenerateContent generateContentParams | Fetch http_request

text \<open>
  The environment of a run over a world state \<open>'w\<close>: the Google SDK
  (\<open>new GoogleGenAI({apiKey}).models.generateContent(...)\<close>, read through \<open>.text\<close>),
  \<open>fetch\<close>, and the settings the user saves in the settings dialog while a call is
  pending (oldest first). A call either rejects or resolves, and moves the world on.
\<close>

record 'w env =
  generateContent :: "generateContentParams \<Rightarrow> 'w \<Rightarrow> (thrown + jsval) \<times> 'w"
  fetch :: "http_request \<Rightarrow> 'w \<Rightarrow> (thrown + http_response) \<times> 'w"
  saves :: "'w \<Rightarrow> settings list"

text \<open>
  The component's state (\<open>useState\<close> cells and the \<open>smadrApiSettings\<close> entry of
  \<open>localStorage\<close>), the world, and two histories kept for stating properties: every
  call of \<open>callGenerativeAI\<close> made by \<open>handleSubmit\<close> with the status shown when it was
  issued and its outcome, and every request sent to a provider.
\<close>

record adapter_call =
  c_contents :: "Content list"
  c_systemInstruction :: jsstring
  c_status :: jsstring
  c_result :: "thrown + jsval"

record 'w state =
  messages :: "Message list"
  isLoading :: bool
  loadingStatus :: jsstring
  apiSettings :: settings
  localStorage :: "settings option"
  world :: 'w
  calls :: "adapter_call list"
  requests :: "outbound list"

section \<open>The provider adapter\<close>

definition handleSaveSettings :: "settings \<Rightarrow> 'w state \<Rightarrow> 'w state" where
  "handleSaveSettings newSettings st =
     st\<lparr>apiSettings := newSettings, localStorage := Some newSettings\<rparr>"

text \<open>\<open>errorData.error?.message || 'Unknown error'\<close>, then the template's \<open>ToString\<close>.\<close>

definition upstreamMessage :: "jsval \<Rightarrow> thrown + jsstring" where
  "upstreamMessage errorData =
     (case member errorData (lit ''error'') of
        Inl e \<Rightarrow> Inl e
      | Inr err \<Rightarrow>
          (case optionalMember err (lit ''message'') of
             Inl e \<Rightarrow> Inl e
           | Inr message \<Rightarrow>
               if truthy message then toString message else Inr (lit ''Unknown error'')))"

text \<open>\<open>data.choices[0].message.content\<close>\<close>

definition choiceContent :: "jsval \<Rightarrow> thrown + jsval" where
  "choiceContent data =
     (case member data (lit ''choices'') of
        Inl e \<Rightarrow> Inl e
      | Inr choices \<Rightarrow>
          (case element choices 0 of
             Inl e \<Rightarrow> Inl e
           | Inr choice \<Rightarrow>
               (case member choice (lit ''message'') of
                  Inl e \<Rightarrow> Inl e
                | Inr message \<Rightarrow> member message (lit ''content''))))"

text \<open>
  The list \<open>messagesForApi\<close>. Joining the texts of a turn's parts converts them to
  strings, so building the list can throw.
\<close>

definition messagesForApi :: "Content list \<Rightarrow> jsstring \<Rightarrow> thrown + api_message list" where
  "messagesForApi contents systemInstruction =
     (case collect
             (map (\<lambda>content.
                     case join (map part_text (parts content)) (lit ''\<newline>'') of
                       Inl e \<Rightarrow> Inl e
                     | Inr joined \<Rightarrow> Inr \<lparr>m_role = role content, m_content = joined\<rparr>)
                contents) of
        Inl e \<Rightarrow> Inl e
      | Inr pushed \<Rightarrow>
          Inr ((if systemInstruction \<noteq> []
                then [\<lparr>m_role = lit ''system'', m_content = systemInstruction\<rparr>] else [])
               @ pushed))"

text \<open>
  \<open>callGenerativeAI\<close> of the render whose \<open>apiSettings\<close> is \<open>settings\<close>. A \<open>throw\<close> is the
  result \<open>Inl\<close>.
\<close>

definition callGenerativeAI ::
  "'w env \<Rightarrow> settings \<Rightarrow> Content list \<Rightarrow> jsstring \<Rightarrow> 'w state \<Rightarrow> (thrown + jsval) \<times> 'w state" where
  "callGenerativeAI env settings contents systemInstruction st =
     (if provider settings = google then
        (let apiKey = google_key (keys settings) in
         if apiKey = [] then (Inl (Exception Error (lit ''Google API key is missing.'')), st)
         else
           let params = \<lparr>g_apiKey = apiKey,
                         g_model = (if model settings \<noteq> [] then model settings
                                    else DEFAULT_MODEL_NAME),
                         g_contents = contents,
                         g_systemInstruction = systemInstruction\<rparr>;
               (response, w) = generateContent env params (world st)
           in (response, st\<lparr>world := w, requests := requests st @ [GenerateContent params]\<rparr>))
      else
        (let (apiUrl, apiKey) =
               (if provider settings = groq
                then (lit ''https://api.groq.com/openai/v1/chat/completions'',
                      groq_key (keys settings))
                else (lit ''https://openrouter.ai/api/v1/chat/completions'',
                      openrouter_key (keys settings)))
         in
         if apiKey = []
         then (Inl (Exception Error (providerName (provider settings) @ lit '' API key is missing.'')), st)
         else
           case messagesForApi contents systemInstruction of
             Inl e \<Rightarrow> (Inl e, st)
           | Inr apiMessages \<Rightarrow>
               let request =
                     \<lparr>url = apiUrl,
                      http_method = lit ''POST'',
                      headers =
                        [(lit ''Authorization'', lit ''Bearer '' @ apiKey),
                         (lit ''Content-Type'', lit ''application/json'')]
                        @ (if provider settings = openrouter
                           then [(lit ''HTTP-Referer'', lit ''https://github.com/your-repo/smadr''),
                                 (lit ''X-Title'', lit ''(SMADR) Strategic Multi-Agent Deep Research'')]
                           else []),
                      body = \<lparr>b_model = model settings, b_messages = apiMessages\<rparr>\<rparr>;
                   (fetched, w) = fetch env request (world st);
                   st' = st\<lparr>world := w, requests := requests st @ [Fetch request]\<rparr>
               in
               case fetched of
                 Inl e \<Rightarrow> (Inl e, st')
               | Inr response \<Rightarrow>
                   if \<not> ok response then
                     (case json response of
                        Inl e \<Rightarrow> (Inl e, st')
                      | Inr errorData \<Rightarrow>
                          (case upstreamMessage errorData of
                             Inl e \<Rightarrow> (Inl e, st')
                           | Inr m \<Rightarrow>
                               (Inl (Exception Error
                                       (lit ''API Error from '' @ providerName (provider settings)
                                          @ lit '': '' @ m)), st')))
                   else
                     (case json response of
                        Inl e \<Rightarrow> (Inl e, st')
                      | Inr data \<Rightarrow> (choiceContent data, st'))))"

section \<open>The pipeline\<close>

text \<open>
  While \<open>handleSubmit\<close> is suspended at an \<open>await\<close>, the event loop runs other handlers.
  The form is disabled while \<open>isLoading\<close> holds, the settings dialog is not: the handler
  that can run is \<open>handleSaveSettings\<close>.
\<close>

definition eventLoop :: "'w env \<Rightarrow> 'w state \<Rightarrow> 'w state" where
  "eventLoop env st = foldl (\<lambda>s newSettings. handleSaveSettings newSettings s) st (saves env (world st))"

text \<open>
  \<open>await callGenerativeAI(contents, systemInstruction)\<close> inside \<open>handleSubmit\<close>: the call
  is made with the \<open>apiSettings\<close> of the render that created the handler, its outcome is
  entered in the history, and the handlers that ran meanwhile have taken effect when the
  function resumes.
\<close>

definition awaitCall ::
  "'w env \<Rightarrow> settings \<Rightarrow> Content list \<Rightarrow> jsstring \<Rightarrow> 'w state \<Rightarrow> (thrown + jsval) \<times> 'w state" where
  "awaitCall env settings contents systemInstruction st =
     (let (result, st') = callGenerativeAI env settings contents systemInstruction st;
          entry = \<lparr>c_contents = contents, c_systemInstruction = systemInstruction,
                   c_status = loadingStatus st, c_result = result\<rparr>
      in (result, eventLoop env (st'\<lparr>calls := calls st' @ [entry]\<rparr>)))"

text \<open>
  The template literals convert their substitutions in order, so each of them can
  throw. \<open>userInput\<close> and \<open>userQueryWithPlan\<close> are strings already.
\<close>

definition userQueryWithPlan :: "jsstring \<Rightarrow> jsval \<Rightarrow> thrown + jsstring" where
  "userQueryWithPlan userInput plan =
     andThen (toString plan) (\<lambda>planText.
       Inr (lit ''User Query: \"'' @ userInput @ lit ''\"\<newline>\<newline>Execution Plan:\<newline>''
            @ planText))"

definition userTurn :: "jsstring \<Rightarrow> Content" where
  "userTurn t = \<lparr>role = lit ''user'', parts = [\<lparr>part_text = JStr t\<rparr>]\<rparr>"

text \<open>STEP 1: the loop \<open>for (let i = 0; i < 4; i++)\<close> over the initial responses.\<close>

function initialLoop ::
  "'w env \<Rightarrow> settings \<Rightarrow> Content list \<Rightarrow> Content \<Rightarrow> nat \<Rightarrow> jsval list \<Rightarrow> 'w state
     \<Rightarrow> (thrown + jsval list) \<times> 'w state" where
  "initialLoop env settings mainChatHistory plannedUserTurn i initialAnswers st =
     (if i < 4 then
        (let st1 = st\<lparr>loadingStatus := lit ''Initializing agent '' @ digits (i + 1)
                                          @ lit ''/4: Generating analysis...''\<rparr>
         in case awaitCall env settings (mainChatHistory @ [plannedUserTurn])
                   INITIAL_SYSTEM_INSTRUCTION st1 of
              (Inl e, st2) \<Rightarrow> (Inl e, st2)
            | (Inr response, st2) \<Rightarrow>
                initialLoop env settings mainChatHistory plannedUserTurn (i + 1)
                  (initialAnswers @ [response]) st2)
      else (Inr initialAnswers, st))"
  by pat_completeness auto
termination
  by (relation "measure (\<lambda>(env, settings, mainChatHistory, plannedUserTurn, i, initialAnswers, st). 4 - i)")
     auto

declare initialLoop.simps [simp del]

text \<open>\<open>initialAnswers.filter((_, j) => j !== i)\<close>\<close>

definition otherAnswers :: "jsval list \<Rightarrow> nat \<Rightarrow> jsval list" where
  "otherAnswers initialAnswers i =
     map fst (filter (\<lambda>(a, j). j \<noteq> i) (zip initialAnswers [0 ..< length initialAnswers]))"

definition refinementContext :: "jsval list \<Rightarrow> nat \<Rightarrow> thrown + jsstring" where
  "refinementContext initialAnswers i =
     (let initialAnswer = at initialAnswers i;
          others = otherAnswers initialAnswers i
      in andThen (toString initialAnswer) (\<lambda>mine.
         andThen (toString (at others 0)) (\<lambda>other1.
         andThen (toString (at others 1)) (\<lambda>other2.
         andThen (toString (at others 2)) (\<lambda>other3.
           Inr (lit ''My initial response was: \"'' @ mine
                @ lit ''\". The other agents responded with: 1. \"'' @ other1
                @ lit ''\" 2. \"'' @ other2
                @ lit ''\" 3. \"'' @ other3
                @ lit ''\". Based on this context, critically re-evaluate and provide a new, improved response.''))))))"

definition refinementTurn :: "jsstring \<Rightarrow> jsval list \<Rightarrow> nat \<Rightarrow> thrown + Content" where
  "refinementTurn queryWithPlan initialAnswers i =
     andThen (refinementContext initialAnswers i) (\<lambda>context.
       Inr (userTurn (queryWithPlan @ lit ''\<newline>\<newline>---INTERNAL CONTEXT---\<newline>'' @ context)))"

text \<open>STEP 2: the loop over the refined responses.\<close>

function refineLoop ::
  "'w env \<Rightarrow> settings \<Rightarrow> Content list \<Rightarrow> jsstring \<Rightarrow> jsval list \<Rightarrow> nat \<Rightarrow> jsval list \<Rightarrow> 'w state
     \<Rightarrow> (thrown + jsval list) \<times> 'w state" where
  "refineLoop env settings mainChatHistory queryWithPlan initialAnswers i refinedAnswers st =
     (if i < 4 then
        (let st1 = st\<lparr>loadingStatus := lit ''Refining answer '' @ digits (i + 1)
                                          @ lit ''/4: Critiquing and improving...''\<rparr>
         in case refinementTurn queryWithPlan initialAnswers i of
              Inl e \<Rightarrow> (Inl e, st1)
            | Inr turn \<Rightarrow>
                (case awaitCall env settings (mainChatHistory @ [turn])
                        REFINEMENT_SYSTEM_INSTRUCTION st1 of
                   (Inl e, st2) \<Rightarrow> (Inl e, st2)
                 | (Inr response, st2) \<Rightarrow>
                     refineLoop env settings mainChatHistory queryWithPlan initialAnswers (i + 1)
                       (refinedAnswers @ [response]) st2))
      else (Inr refinedAnswers, st))"
  by pat_completeness auto
termination
  by (relation "measure (\<lambda>(env, settings, mainChatHistory, queryWithPlan, initialAnswers, i, refinedAnswers, st). 4 - i)")
     auto

declare refineLoop.simps [simp del]

definition synthesizerContext :: "jsval list \<Rightarrow> thrown + jsstring" where
  "synthesizerContext refinedAnswers =
     andThen (toString (at refinedAnswers 0)) (\<lambda>refined1.
     andThen (toString (at refinedAnswers 1)) (\<lambda>refined2.
     andThen (toString (at refinedAnswers 2)) (\<lambda>refined3.
     andThen (toString (at refinedAnswers 3)) (\<lambda>refined4.
       Inr (lit ''Here are the four refined responses to the user's query. Your task is to synthesize them into the best single, final answer.\<newline>\<newline>Refined Response 1:\<newline>\"''
            @ refined1
            @ lit ''\"\<newline>\<newline>Refined Response 2:\<newline>\"'' @ refined2
            @ lit ''\"\<newline>\<newline>Refined Response 3:\<newline>\"'' @ refined3
            @ lit ''\"\<newline>\<newline>Refined Response 4:\<newline>\"'' @ refined4
            @ lit ''\"'')))))"

definition synthesizerTurn :: "jsstring \<Rightarrow> jsval list \<Rightarrow> thrown + Content" where
  "synthesizerTurn queryWithPlan refinedAnswers =
     andThen (synthesizerContext refinedAnswers) (\<lambda>context.
       Inr (userTurn (queryWithPlan @ lit ''\<newline>\<newline>---INTERNAL CONTEXT---\<newline>'' @ context)))"

text \<open>
  The body of the \<open>try\<close> block up to the last adapter call. \<open>settings\<close> and
  \<open>currentMessages\<close> are constants of the closure.
\<close>

definition pipeline ::
  "'w env \<Rightarrow> settings \<Rightarrow> Message list \<Rightarrow> jsstring \<Rightarrow> 'w state \<Rightarrow> (thrown + jsval) \<times> 'w state" where
  "pipeline env settings currentMessages userInput st =
     (let mainChatHistory =
            map (\<lambda>msg. \<lparr>role = role msg, parts = parts msg\<rparr>) (butlast currentMessages);
          currentUserTurn = userTurn userInput;
          st1 = st\<lparr>loadingStatus := lit ''Strategizing: Formulating optimal approach...''\<rparr>
      in case awaitCall env settings (mainChatHistory @ [currentUserTurn])
                STRATEGIST_SYSTEM_INSTRUCTION st1 of
           (Inl e, st2) \<Rightarrow> (Inl e, st2)
         | (Inr plan, st2) \<Rightarrow>
             (case userQueryWithPlan userInput plan of
                Inl e \<Rightarrow> (Inl e, st2)
              | Inr queryWithPlan \<Rightarrow>
                  (let plannedUserTurn = userTurn queryWithPlan
                   in case initialLoop env settings mainChatHistory plannedUserTurn 0 [] st2 of
                        (Inl e, st3) \<Rightarrow> (Inl e, st3)
                      | (Inr initialAnswers, st3) \<Rightarrow>
                          (case refineLoop env settings mainChatHistory queryWithPlan
                                  initialAnswers 0 [] st3 of
                             (Inl e, st4) \<Rightarrow> (Inl e, st4)
                           | (Inr refinedAnswers, st4) \<Rightarrow>
                               (let st5 = st4\<lparr>loadingStatus :=
                                                 lit ''Synthesizing: Compiling final response...''\<rparr>
                                in case synthesizerTurn queryWithPlan refinedAnswers of
                                     Inl e \<Rightarrow> (Inl e, st5)
                                   | Inr turn \<Rightarrow>
                                       awaitCall env settings (mainChatHistory @ [turn])
                                         SYNTHESIZER_SYSTEM_INSTRUCTION st5)))))"

text \<open>\<open>error instanceof Error ? error.message : '...'\<close>\<close>

definition errorMessage :: "thrown \<Rightarrow> jsstring" where
  "errorMessage error =
     (case error of
        Exception c message \<Rightarrow> message
      | NonError \<Rightarrow> lit ''Sorry, I encountered an error. Please check your API keys and try again.'')"

definition modelMessage :: "jsval \<Rightarrow> Message" where
  "modelMessage t = \<lparr>role = lit ''model'', parts = [\<lparr>part_text = t\<rparr>]\<rparr>"

text \<open>
  \<open>handleSubmit\<close> of the current render, whose constants \<open>messages\<close> and \<open>apiSettings\<close> are
  the state's at the time of the submission. \<open>userInput\<close> is the form's field; resetting
  the form touches the document only.
\<close>

definition handleSubmit :: "'w env \<Rightarrow> jsstring \<Rightarrow> 'w state \<Rightarrow> 'w state" where
  "handleSubmit env userInput st =
     (if trim userInput = [] then st
      else
        let userMessage = userTurn userInput;
            currentMessages = messages st @ [userMessage];
            st1 = st\<lparr>messages := currentMessages, isLoading := True\<rparr>
        in case pipeline env (apiSettings st) currentMessages userInput st1 of
             (Inr finalResponseText, st2) \<Rightarrow>
               st2\<lparr>isLoading := False,
                   messages := messages st2 @ [modelMessage finalResponseText]\<rparr>
           | (Inl error, st2) \<Rightarrow>
               st2\<lparr>isLoading := False,
                   messages := messages st2 @ [modelMessage (JStr (errorMessage error))]\<rparr>)"

section \<open>Notions for stating the properties\<close>

text \<open>The adapter calls made, and the requests sent, between two states.\<close>

definition issued :: "'w state \<Rightarrow> 'w state \<Rightarrow> adapter_call list" where
  "issued st st' = drop (length (calls st)) (calls st')"

definition sent :: "'w state \<Rightarrow> 'w state \<Rightarrow> outbound list" where
  "sent st st' = drop (length (requests st)) (requests st')"

definition succeeded :: "adapter_call \<Rightarrow> bool" where
  "succeeded c = (case c_result c of Inr v \<Rightarrow> True | Inl e \<Rightarrow> False)"

definition valueOf :: "thrown + jsval \<Rightarrow> jsval" where
  "valueOf r = (case r of Inr v \<Rightarrow> v | Inl e \<Rightarrow> JUndefined)"

text \<open>A call whose reply can be converted to a string.\<close>

definition converts :: "adapter_call \<Rightarrow> bool" where
  "converts c = (case toString (valueOf (c_result c)) of Inr t \<Rightarrow> True | Inl e \<Rightarrow> False)"

text \<open>The credential of the selected provider, and the error thrown when it is empty.\<close>

definition selectedKey :: "settings \<Rightarrow> jsstring" where
  "selectedKey s =
     (case provider s of
        google \<Rightarrow> google_key (keys s)
      | groq \<Rightarrow> groq_key (keys s)
      | openrouter \<Rightarrow> openrouter_key (keys s))"

definition keyMissing :: "ApiProvider \<Rightarrow> thrown" where
  "keyMissing p =
     Exception Error
       (case p of
          google \<Rightarrow> lit ''Google API key is missing.''
        | groq \<Rightarrow> lit ''groq API key is missing.''
        | openrouter \<Rightarrow> lit ''openrouter API key is missing.'')"

text \<open>A provider whose answer is a function of the request alone.\<close>

definition deterministic :: "'w env \<Rightarrow> bool" where
  "deterministic env \<longleftrightarrow>
     (\<forall>p w w'. fst (generateContent env p w) = fst (generateContent env p w'))
     \<and> (\<forall>r w w'. fst (fetch env r w) = fst (fetch env r w'))"

text \<open>
  The pipeline seen as ten stages in a row: stage \<open>k\<close> builds its turn from the outcomes
  of the calls before it (\<open>L\<close> holds their entries), which can throw, and makes the
  \<open>k\<close>-th adapter call. The planned turn is built before the progress label of the first
  initializer call is set, the later turns after the label of their stage.
\<close>

definition initStatus :: "nat \<Rightarrow> jsstring" where
  "initStatus i = lit ''Initializing agent '' @ digits (i + 1)
                    @ lit ''/4: Generating analysis...''"

definition refineStatus :: "nat \<Rightarrow> jsstring" where
  "refineStatus i = lit ''Refining answer '' @ digits (i + 1)
                      @ lit ''/4: Critiquing and improving...''"

definition stageTurn :: "jsstring \<Rightarrow> adapter_call list \<Rightarrow> nat \<Rightarrow> thrown + Content" where
  "stageTurn userInput L k =
     (let v = (\<lambda>j. valueOf (c_result (L ! j)))
      in if k = 0 then Inr (userTurn userInput)
         else case userQueryWithPlan userInput (v 0) of
                Inl e \<Rightarrow> Inl e
              | Inr q \<Rightarrow>
                  if k \<le> 4 then Inr (userTurn q)
                  else if k \<le> 8 then refinementTurn q [v 1, v 2, v 3, v 4] (k - 5)
                  else synthesizerTurn q [v 5, v 6, v 7, v 8])"

definition stageInstruction :: "nat \<Rightarrow> jsstring" where
  "stageInstruction k =
     (if k = 0 then STRATEGIST_SYSTEM_INSTRUCTION
      else if k \<le> 4 then INITIAL_SYSTEM_INSTRUCTION
      else if k \<le> 8 then REFINEMENT_SYSTEM_INSTRUCTION
      else SYNTHESIZER_SYSTEM_INSTRUCTION)"

definition stageStatus :: "nat \<Rightarrow> jsstring" where
  "stageStatus k =
     (if k = 0 then lit ''Strategizing: Formulating optimal approach...''
      else if k \<le> 4 then initStatus (k - 1)
      else if k \<le> 8 then refineStatus (k - 5)
      else lit ''Synthesizing: Compiling final response...'')"

function stages ::
  "'w env \<Rightarrow> settings \<Rightarrow> Content list \<Rightarrow> jsstring \<Rightarrow> nat \<Rightarrow> adapter_call list \<Rightarrow> 'w state
     \<Rightarrow> (thrown + jsval) \<times> 'w state" where
  "stages env s ms userInput k L st =
     (case stageTurn userInput L k of
        Inl e \<Rightarrow> (Inl e, if k \<le> 4 then st else st\<lparr>loadingStatus := stageStatus k\<rparr>)
      | Inr turn \<Rightarrow>
          (case awaitCall env s (ms @ [turn]) (stageInstruction k)
                  (st\<lparr>loadingStatus := stageStatus k\<rparr>) of
             (Inl e, st') \<Rightarrow> (Inl e, st')
           | (Inr v, st') \<Rightarrow>
               if k < 9
               then stages env s ms userInput (Suc k)
                      (L @ [\<lparr>c_contents = ms @ [turn],
                              c_systemInstruction = stageInstruction k,
                              c_status = stageStatus k, c_result = Inr v\<rparr>]) st'
               else (Inr v, st')))"
  by pat_completeness auto
termination
  by (relation "measure (\<lambda>(env, s, ms, userInput, k, L, st). 9 - k)") auto

declare stages.simps [simp del]

text \<open>A history in which every call has the input of its stage.\<close>

definition conforms :: "Content list \<Rightarrow> jsstring \<Rightarrow> adapter_call list \<Rightarrow> bool" where
  "conforms ms userInput L \<longleftrightarrow>
     (\<forall>k < length L.
        (\<exists>turn. stageTurn userInput L k = Inr turn \<and> c_contents (L ! k) = ms @ [turn])
      \<and> c_systemInstruction (L ! k) = stageInstruction k
      \<and> c_status (L ! k) = stageStatus k)"

text \<open>
  How a run with history \<open>L\<close> has ended: with the tenth call's reply; or with a throw,
  which is the failure of the last call or, all calls having succeeded, the failure to
  build the next turn.
\<close>

definition ended :: "jsstring \<Rightarrow> adapter_call list \<Rightarrow> thrown + jsval \<Rightarrow> bool" where
  "ended userInput L res \<longleftrightarrow>
     (case res of
        Inr v \<Rightarrow> length L = 10 \<and> c_result (last L) = Inr v
      | Inl e \<Rightarrow>
          (L \<noteq> [] \<and> c_result (last L) = Inl e)
          \<or> (list_all succeeded L \<and> length L < 10
              \<and> stageTurn userInput L (length L) = Inl e))"

text \<open>Every outcome in the history is what the adapter returned for the logged input.\<close>

definition genuine :: "'w env \<Rightarrow> settings \<Rightarrow> adapter_call list \<Rightarrow> bool" where
  "genuine env s L \<longleftrightarrow>
     (\<forall>c \<in> set L. \<exists>st. c_result c
        = fst (callGenerativeAI env s (c_contents c) (c_systemInstruction c) st))"

text \<open>Two states that differ at most in the settings cell and its stored copy.\<close>

definition sameRun :: "'w state \<Rightarrow> 'w state \<Rightarrow> bool" where
  "sameRun st st' \<longleftrightarrow>
     messages st = messages st' \<and> isLoading st = isLoading st'
     \<and> loadingStatus st = loadingStatus st' \<and> world st = world st'
     \<and> calls st = calls st' \<and> requests st = requests st'"

text \<open>
  The request that \<open>callGenerativeAI\<close> builds for an OpenAI-compatible provider from the
  list of messages, its reading of the reply, and the parameters it hands to the Google
  SDK.
\<close>

definition chatRequest :: "settings \<Rightarrow> api_message list \<Rightarrow> http_request" where
  "chatRequest s apiMessages =
     \<lparr>url = (if provider s = groq
              then lit ''https://api.groq.com/openai/v1/chat/completions''
              else lit ''https://openrouter.ai/api/v1/chat/completions''),
      http_method = lit ''POST'',
      headers =
        [(lit ''Authorization'', lit ''Bearer '' @ selectedKey s),
         (lit ''Content-Type'', lit ''application/json'')]
        @ (if provider s = openrouter
           then [(lit ''HTTP-Referer'', lit ''https://github.com/your-repo/smadr''),
                 (lit ''X-Title'', lit ''(SMADR) Strategic Multi-Agent Deep Research'')]
           else []),
      body = \<lparr>b_model = model s, b_messages = apiMessages\<rparr>\<rparr>"

definition readResponse :: "ApiProvider \<Rightarrow> thrown + http_response \<Rightarrow> thrown + jsval" where
  "readResponse p fetched =
     (case fetched of
        Inl e \<Rightarrow> Inl e
      | Inr response \<Rightarrow>
          if \<not> ok response then
            (case json response of
               Inl e \<Rightarrow> Inl e
             | Inr errorData \<Rightarrow>
                 (case upstreamMessage errorData of
                    Inl e \<Rightarrow> Inl e
                  | Inr m \<Rightarrow>
                      Inl (Exception Error
                             (lit ''API Error from '' @ providerName p @ lit '': '' @ m))))
          else
            (case json response of
               Inl e \<Rightarrow> Inl e
             | Inr data \<Rightarrow> choiceContent data))"

definition googleParams :: "settings \<Rightarrow> Content list \<Rightarrow> jsstring \<Rightarrow> generateContentParams" where
  "googleParams s contents systemInstruction =
     \<lparr>g_apiKey = google_key (keys s),
      g_model = (if model s \<noteq> [] then model s else DEFAULT_MODEL_NAME),
      g_contents = contents,
      g_systemInstruction = systemInstruction\<rparr>"

text \<open>The body \<open>{choices: [{message: {content: t}}]}\<close> of a chat completion.\<close>

definition completion :: "jsval \<Rightarrow> jsval" where
  "completion t =
     JObj [(lit ''choices'', JArr [JObj [(lit ''message'', JObj [(lit ''content'', t)])]])]"

section \<open>Example environments\<close>

text \<open>
  A provider that answers from a script: the world is the list of texts still to be
  returned. Through \<open>fetch\<close> the text arrives as a chat completion.
\<close>

definition scriptEnded :: thrown where
  "scriptEnded = Exception OtherError (lit ''quota exceeded'')"

definition scripted :: "(jsval list) env" where
  "scripted =
     \<lparr>generateContent = (\<lambda>p w. case w of [] \<Rightarrow> (Inl scriptEnded, []) | t # ts \<Rightarrow> (Inr t, ts)),
      fetch = (\<lambda>r w. case w of [] \<Rightarrow> (Inl scriptEnded, [])
                      | t # ts \<Rightarrow> (Inr \<lparr>status = 200, json = Inr (completion t)\<rparr>, ts)),
      saves = (\<lambda>w. [])\<rparr>"

definition googleSettings :: settings where
  "googleSettings =
     \<lparr>provider = google, model = [],
      keys = \<lparr>google_key = lit ''AIza'', groq_key = [], openrouter_key = []\<rparr>\<rparr>"

definition groqSettings :: settings where
  "groqSettings =
     \<lparr>provider = groq, model = lit ''llama3-8b-8192'',
      keys = \<lparr>google_key = [], groq_key = lit ''gsk_1'', openrouter_key = []\<rparr>\<rparr>"

definition startState :: "settings \<Rightarrow> 'w \<Rightarrow> 'w state" where
  "startState s w =
     \<lparr>messages = [], isLoading = False, loadingStatus = [], apiSettings = s,
      localStorage = None, world = w, calls = [], requests = []\<rparr>"

definition tenTexts :: "jsval list" where
  "tenTexts = map (JStr \<circ> lit)
     [''plan'', ''init0'', ''init1'', ''init2'', ''init3'',
      ''ref0'', ''ref1'', ''ref2'', ''ref3'', ''final'']"

definition groqWithoutKey :: settings where
  "groqWithoutKey =
     \<lparr>provider = groq, model = lit ''llama3-8b-8192'',
      keys = \<lparr>google_key = lit ''AIza'', groq_key = [], openrouter_key = []\<rparr>\<rparr>"

text \<open>The same provider, with a user who switches to Groq when five texts are left.\<close>

definition switching :: "(jsval list) env" where
  "switching = scripted\<lparr>saves := (\<lambda>w. if length w = 5 then [groqSettings] else [])\<rparr>"

text \<open>A provider that returns the same text for every request.\<close>

definition unchanging :: "unit env" where
  "unchanging =
     \<lparr>generateContent = (\<lambda>p w. (Inr (JStr (lit ''same'')), w)),
      fetch = (\<lambda>r w. (Inr \<lparr>status = 200, json = Inr (completion (JStr (lit ''same'')))\<rparr>, w)),
      saves = (\<lambda>w. [])\<rparr>"

text \<open>
  A gateway that answers every request with status 502 and an HTML page, on which
  \<open>response.json()\<close> rejects.
\<close>

definition notJson :: thrown where
  "notJson = Exception SyntaxError (lit ''Unexpected token < in JSON at position 0'')"

definition badGateway :: "unit env" where
  "badGateway =
     \<lparr>generateContent = (\<lambda>p w. (Inl scriptEnded, w)),
      fetch = (\<lambda>r w. (Inr \<lparr>status = 502, json = Inl notJson\<rparr>, w)),
      saves = (\<lambda>w. [])\<rparr>"

text \<open>A provider whose calls reject with a value that is no \<open>Error\<close>.\<close>

definition rejecting :: "unit env" where
  "rejecting =
     \<lparr>generateContent = (\<lambda>p w. (Inl NonError, w)),
      fetch = (\<lambda>r w. (Inl NonError, w)),
      saves = (\<lambda>w. [])\<rparr>"

text \<open>A reply that is an object with a member named \<open>toString\<close>.\<close>

definition unprintable :: jsval where
  "unprintable = JObj [(lit ''toString'', JNum (lit ''1''))]"

section \<open>Properties of the adapter and of one awaited call\<close>

lemma callGenerativeAI_no_key:
  assumes "selectedKey s = []"
  shows "callGenerativeAI env s c sys st = (Inl (keyMissing (provider s)), st)"
  using assms
  by (cases "provider s")
     (simp_all add: callGenerativeAI_def selectedKey_def keyMissing_def Let_def lit_def)

lemma callGenerativeAI_google:
  assumes "provider s = google" and "selectedKey s \<noteq> []"
  shows "callGenerativeAI env s c sys st =
     (fst (generateContent env (googleParams s c sys) (world st)),
      st\<lparr>world := snd (generateContent env (googleParams s c sys) (world st)),
         requests := requests st @ [GenerateContent (googleParams s c sys)]\<rparr>)"
  using assms
  by (simp add: callGenerativeAI_def selectedKey_def googleParams_def Let_def case_prod_beta)

lemma callGenerativeAI_unjoinable:
  assumes "provider s \<noteq> google" and "selectedKey s \<noteq> []"
    and "messagesForApi c sys = Inl e"
  shows "callGenerativeAI env s c sys st = (Inl e, st)"
  using assms
  by (cases "provider s")
     (simp_all add: callGenerativeAI_def selectedKey_def Let_def)

lemma callGenerativeAI_openai:
  assumes "provider s \<noteq> google" and "selectedKey s \<noteq> []"
    and "messagesForApi c sys = Inr ms"
  shows "callGenerativeAI env s c sys st =
     (readResponse (provider s) (fst (fetch env (chatRequest s ms) (world st))),
      st\<lparr>world := snd (fetch env (chatRequest s ms) (world st)),
         requests := requests st @ [Fetch (chatRequest s ms)]\<rparr>)"
  using assms
  by (cases "provider s")
     (simp_all add: callGenerativeAI_def selectedKey_def chatRequest_def readResponse_def
        Let_def case_prod_beta split: sum.splits)

lemma callGenerativeAI_frame:
  assumes "callGenerativeAI env s c sys st = (r, st')"
  shows "st' = st\<lparr>world := world st', requests := requests st'\<rparr>"
proof (cases "selectedKey s = []")
  case True
  then show ?thesis using assms by (simp add: callGenerativeAI_no_key)
next
  case False
  show ?thesis
  proof (cases "provider s = google")
    case True
    then show ?thesis using assms False by (auto simp: callGenerativeAI_google)
  next
    case ng: False
    show ?thesis
    proof (cases "messagesForApi c sys")
      case (Inl e)
      then show ?thesis using assms False ng by (simp add: callGenerativeAI_unjoinable)
    next
      case (Inr ms)
      then show ?thesis using assms False ng by (auto simp: callGenerativeAI_openai)
    qed
  qed
qed

lemma foldl_saves:
  "\<exists>a l. foldl (\<lambda>s n. handleSaveSettings n s) st ns = st\<lparr>apiSettings := a, localStorage := l\<rparr>"
proof (induction ns arbitrary: st)
  case Nil
  have "st = st\<lparr>apiSettings := apiSettings st, localStorage := localStorage st\<rparr>" by simp
  then show ?case by (metis foldl_Nil)
next
  case (Cons n ns)
  obtain a l where "foldl (\<lambda>s n. handleSaveSettings n s) (handleSaveSettings n st) ns
      = (handleSaveSettings n st)\<lparr>apiSettings := a, localStorage := l\<rparr>"
    using Cons.IH by blast
  then have "foldl (\<lambda>s n. handleSaveSettings n s) st (n # ns)
      = st\<lparr>apiSettings := a, localStorage := l\<rparr>"
    by (simp add: handleSaveSettings_def)
  then show ?case by blast
qed

lemma eventLoop_frame:
  "\<exists>a l. eventLoop env st = st\<lparr>apiSettings := a, localStorage := l\<rparr>"
  unfolding eventLoop_def by (rule foldl_saves)

lemma awaitCall_effect:
  assumes "awaitCall env s c sys st = (r, st')"
  shows "calls st' = calls st @ [\<lparr>c_contents = c, c_systemInstruction = sys,
                                   c_status = loadingStatus st, c_result = r\<rparr>]
     \<and> messages st' = messages st \<and> isLoading st' = isLoading st
     \<and> loadingStatus st' = loadingStatus st
     \<and> r = fst (callGenerativeAI env s c sys st)"
proof -
  let ?e = "\<lparr>c_contents = c, c_systemInstruction = sys,
              c_status = loadingStatus st, c_result = r\<rparr>"
  obtain st1 where c: "callGenerativeAI env s c sys st = (r, st1)"
    and e: "st' = eventLoop env (st1\<lparr>calls := calls st1 @ [?e]\<rparr>)"
    using assms by (auto simp: awaitCall_def Let_def split: prod.splits)
  obtain a l where st': "st' = st1\<lparr>calls := calls st1 @ [?e], apiSettings := a, localStorage := l\<rparr>"
    using eventLoop_frame [of env "st1\<lparr>calls := calls st1 @ [?e]\<rparr>"] e by auto
  have f: "st1 = st\<lparr>world := world st1, requests := requests st1\<rparr>"
    using c by (rule callGenerativeAI_frame)
  have "calls st1 = calls st" "messages st1 = messages st" "isLoading st1 = isLoading st"
    "loadingStatus st1 = loadingStatus st"
    by (subst f, simp)+
  then show ?thesis
    using c by (simp add: st')
qed

section \<open>The pipeline as a sequence of stages\<close>

lemma initialLoop_unroll:
  "initialLoop env s h p 0 [] st =
     (case awaitCall env s (h @ [p]) INITIAL_SYSTEM_INSTRUCTION (st\<lparr>loadingStatus := initStatus 0\<rparr>) of
        (Inl e, s1) \<Rightarrow> (Inl e, s1)
      | (Inr r0, s1) \<Rightarrow>
     (case awaitCall env s (h @ [p]) INITIAL_SYSTEM_INSTRUCTION (s1\<lparr>loadingStatus := initStatus 1\<rparr>) of
        (Inl e, s2) \<Rightarrow> (Inl e, s2)
      | (Inr r1, s2) \<Rightarrow>
     (case awaitCall env s (h @ [p]) INITIAL_SYSTEM_INSTRUCTION (s2\<lparr>loadingStatus := initStatus 2\<rparr>) of
        (Inl e, s3) \<Rightarrow> (Inl e, s3)
      | (Inr r2, s3) \<Rightarrow>
     (case awaitCall env s (h @ [p]) INITIAL_SYSTEM_INSTRUCTION (s3\<lparr>loadingStatus := initStatus 3\<rparr>) of
        (Inl e, s4) \<Rightarrow> (Inl e, s4)
      | (Inr r3, s4) \<Rightarrow> (Inr [r0, r1, r2, r3], s4)))))"
  by (simp add: initialLoop.simps [where i = 0] initialLoop.simps [where i = "Suc 0"]
        initialLoop.simps [where i = "Suc (Suc 0)"] initialLoop.simps [where i = "Suc (Suc (Suc 0))"]
        initialLoop.simps [where i = "Suc (Suc (Suc (Suc 0)))"] initStatus_def
        numeral_2_eq_2 numeral_3_eq_3
      cong: prod.case_cong sum.case_cong)

lemma refineLoop_unroll:
  "refineLoop env s h q as 0 [] st =
     (case refinementTurn q as 0 of
        Inl e \<Rightarrow> (Inl e, st\<lparr>loadingStatus := refineStatus 0\<rparr>)
      | Inr t0 \<Rightarrow>
     (case awaitCall env s (h @ [t0]) REFINEMENT_SYSTEM_INSTRUCTION (st\<lparr>loadingStatus := refineStatus 0\<rparr>) of
        (Inl e, s1) \<Rightarrow> (Inl e, s1)
      | (Inr r0, s1) \<Rightarrow>
     (case refinementTurn q as 1 of
        Inl e \<Rightarrow> (Inl e, s1\<lparr>loadingStatus := refineStatus 1\<rparr>)
      | Inr t1 \<Rightarrow>
     (case awaitCall env s (h @ [t1]) REFINEMENT_SYSTEM_INSTRUCTION (s1\<lparr>loadingStatus := refineStatus 1\<rparr>) of
        (Inl e, s2) \<Rightarrow> (Inl e, s2)
      | (Inr r1, s2) \<Rightarrow>
     (case refinementTurn q as 2 of
        Inl e \<Rightarrow> (Inl e, s2\<lparr>loadingStatus := refineStatus 2\<rparr>)
      | Inr t2 \<Rightarrow>
     (case awaitCall env s (h @ [t2]) REFINEMENT_SYSTEM_INSTRUCTION (s2\<lparr>loadingStatus := refineStatus 2\<rparr>) of
        (Inl e, s3) \<Rightarrow> (Inl e, s3)
      | (Inr r2, s3) \<Rightarrow>
     (case refinementTurn q as 3 of
        Inl e \<Rightarrow> (Inl e, s3\<lparr>loadingStatus := refineStatus 3\<rparr>)
      | Inr t3 \<Rightarrow>
     (case awaitCall env s (h @ [t3]) REFINEMENT_SYSTEM_INSTRUCTION (s3\<lparr>loadingStatus := refineStatus 3\<rparr>) of
        (Inl e, s4) \<Rightarrow> (Inl e, s4)
      | (Inr r3, s4) \<Rightarrow> (Inr [r0, r1, r2, r3], s4)))))))))"
  by (simp add: refineLoop.simps [where i = 0] refineLoop.simps [where i = "Suc 0"]
        refineLoop.simps [where i = "Suc (Suc 0)"] refineLoop.simps [where i = "Suc (Suc (Suc 0))"]
        refineLoop.simps [where i = "Suc (Suc (Suc (Suc 0)))"] refineStatus_def
        numeral_2_eq_2 numeral_3_eq_3 Let_def
      cong: prod.case_cong sum.case_cong)

lemma Content_eta [simp]: "(\<lambda>msg. \<lparr>role = role msg, parts = parts msg\<rparr>) = (\<lambda>msg :: Content. msg)"
  by (rule ext) simp

lemma case_result_assoc:
  "(case (case p of (Inl e, s) \<Rightarrow> (Inl e, s) | (Inr v, s) \<Rightarrow> f v s) of
      (Inl e, s) \<Rightarrow> (Inl e, s) | (Inr v, s) \<Rightarrow> g v s)
   = (case p of (Inl e, s) \<Rightarrow> (Inl e, s)
      | (Inr v, s) \<Rightarrow> (case f v s of (Inl e, s) \<Rightarrow> (Inl e, s) | (Inr v, s) \<Rightarrow> g v s))"
  by (simp split: prod.splits sum.splits)

lemma case_turn_assoc:
  "(case (case t of Inl e \<Rightarrow> (Inl e, u) | Inr x \<Rightarrow> f x) of
      (Inl e, s) \<Rightarrow> (Inl e, s) | (Inr v, s) \<Rightarrow> g v s)
   = (case t of Inl e \<Rightarrow> (Inl e, u)
      | Inr x \<Rightarrow> (case f x of (Inl e, s) \<Rightarrow> (Inl e, s) | (Inr v, s) \<Rightarrow> g v s))"
  by (simp split: sum.splits)

lemma case_result_id:
  "(case p of (Inl e, s) \<Rightarrow> (Inl e, s) | (Inr v, s) \<Rightarrow> (Inr v, s)) = p"
  by (simp split: prod.splits sum.splits)

lemma stageTurn_simps:
  "stageTurn userInput L 0 = Inr (userTurn userInput)"
  "0 < k \<Longrightarrow> k \<le> 4 \<Longrightarrow> userQueryWithPlan userInput (valueOf (c_result (L ! 0))) = Inr q
     \<Longrightarrow> stageTurn userInput L k = Inr (userTurn q)"
  "userQueryWithPlan userInput (valueOf (c_result (L ! 0))) = Inl e \<Longrightarrow> 0 < k
     \<Longrightarrow> stageTurn userInput L k = Inl e"
  "4 < k \<Longrightarrow> k \<le> 8 \<Longrightarrow> userQueryWithPlan userInput (valueOf (c_result (L ! 0))) = Inr q
     \<Longrightarrow> stageTurn userInput L k
         = refinementTurn q [valueOf (c_result (L ! 1)), valueOf (c_result (L ! 2)),
                             valueOf (c_result (L ! 3)), valueOf (c_result (L ! 4))] (k - 5)"
  "8 < k \<Longrightarrow> userQueryWithPlan userInput (valueOf (c_result (L ! 0))) = Inr q
     \<Longrightarrow> stageTurn userInput L k
         = synthesizerTurn q [valueOf (c_result (L ! 5)), valueOf (c_result (L ! 6)),
                              valueOf (c_result (L ! 7)), valueOf (c_result (L ! 8))]"
  by (simp_all add: stageTurn_def)

lemma case_sum_assoc:
  "(case (case t of Inl e \<Rightarrow> Inl e | Inr x \<Rightarrow> f x) of Inl e \<Rightarrow> g e | Inr y \<Rightarrow> h y)
   = (case t of Inl e \<Rightarrow> g e | Inr x \<Rightarrow> (case f x of Inl e \<Rightarrow> g e | Inr y \<Rightarrow> h y))"
  by (simp split: sum.splits)

lemma pipeline_stages:
  "pipeline env s (ms @ [um]) userInput st = stages env s ms userInput 0 [] st"
  unfolding pipeline_def initialLoop_unroll refineLoop_unroll Let_def
  by (simp add: stages.simps [where k = 0] stages.simps [where k = "Suc 0"]
        stages.simps [where k = "Suc (Suc 0)"] stages.simps [where k = "Suc (Suc (Suc 0))"] 
        stages.simps [where k = "Suc (Suc (Suc (Suc 0)))"] 
        stages.simps [where k = "Suc (Suc (Suc (Suc (Suc 0))))"] 
        stages.simps [where k = "Suc (Suc (Suc (Suc (Suc (Suc 0)))))"] 
        stages.simps [where k = "Suc (Suc (Suc (Suc (Suc (Suc (Suc 0))))))"] 
        stages.simps [where k = "Suc (Suc (Suc (Suc (Suc (Suc (Suc (Suc 0)))))))"] 
        stages.simps [where k = "Suc (Suc (Suc (Suc (Suc (Suc (Suc (Suc (Suc 0))))))))"] 
        stageTurn_def stageInstruction_def stageStatus_def valueOf_def
        numeral_2_eq_2 numeral_3_eq_3 case_result_assoc case_result_id case_turn_assoc
        case_sum_assoc
      cong: prod.case_cong sum.case_cong)

lemma stageTurn_take:
  assumes "take k L = take k L'"
  shows "stageTurn userInput L k = stageTurn userInput L' k"
proof -
  have "L ! j = L' ! j" if "j < k" for j
    using assms that by (metis nth_take)
  then show ?thesis
    by (auto simp: stageTurn_def Let_def split: sum.splits)
qed

lemma stages_trace:
  assumes "stages env s ms userInput k L st = (res, st')"
    and "calls st = C @ L" and "length L = k" and "k \<le> 9"
    and "conforms ms userInput L" and "\<forall>c \<in> set L. succeeded c" and "genuine env s L"
  shows "\<exists>L'. calls st' = C @ L' \<and> conforms ms userInput L' \<and> k \<le> length L' \<and> length L' \<le> 10
           \<and> (\<forall>c \<in> set (butlast L'). succeeded c) \<and> ended userInput L' res
           \<and> genuine env s L'
           \<and> messages st' = messages st \<and> isLoading st' = isLoading st"
  using assms
proof (induction env s ms userInput k L st rule: stages.induct)
  case (1 env s ms userInput k L st)
  let ?st = "st\<lparr>loadingStatus := stageStatus k\<rparr>"
  show ?case
  proof (cases "stageTurn userInput L k")
    case (Inl e)
    then have "res = Inl e" and "st' = (if k \<le> 4 then st else ?st)"
      using "1.prems"(1) by (simp_all add: stages.simps [of env s ms userInput k L st])
    moreover have "ended userInput L (Inl e)"
      using Inl "1.prems"(3,4,6) by (simp add: ended_def list_all_iff)
    moreover have "\<forall>c \<in> set (butlast L). succeeded c"
      using "1.prems"(6) by (meson in_set_butlastD)
    ultimately show ?thesis
      using "1.prems"(2,3,4,5,7) by (intro exI [of _ L]) simp
  next
    case turn: (Inr turn)
    let ?c = "ms @ [turn]"
    obtain r st1 where a: "awaitCall env s ?c (stageInstruction k) ?st = (r, st1)"
      by (cases "awaitCall env s ?c (stageInstruction k) ?st")
    let ?e = "\<lparr>c_contents = ?c, c_systemInstruction = stageInstruction k,
                c_status = stageStatus k, c_result = r\<rparr>"
    from awaitCall_effect [OF a]
    have calls1: "calls st1 = C @ (L @ [?e])" and m1: "messages st1 = messages st"
      and l1: "isLoading st1 = isLoading st"
      and r: "r = fst (callGenerativeAI env s ?c (stageInstruction k) ?st)"
      using "1.prems"(2) by simp_all
    have gen1: "genuine env s (L @ [?e])"
      using "1.prems"(7) r unfolding genuine_def by auto
    have conf1: "conforms ms userInput (L @ [?e])"
      unfolding conforms_def
    proof (intro allI impI)
      fix j assume j: "j < length (L @ [?e])"
      show "(\<exists>t. stageTurn userInput (L @ [?e]) j = Inr t \<and> c_contents ((L @ [?e]) ! j) = ms @ [t])
          \<and> c_systemInstruction ((L @ [?e]) ! j) = stageInstruction j
          \<and> c_status ((L @ [?e]) ! j) = stageStatus j"
      proof (cases "j < length L")
        case True
        then have "take j (L @ [?e]) = take j L" by simp
        then have "stageTurn userInput (L @ [?e]) j = stageTurn userInput L j"
          by (rule stageTurn_take)
        then show ?thesis
          using True "1.prems"(5) by (simp add: conforms_def nth_append)
      next
        case False
        then have jk: "j = k" using j "1.prems"(3) by simp
        have "take k (L @ [?e]) = take k L" using "1.prems"(3) by simp
        then have "stageTurn userInput (L @ [?e]) k = stageTurn userInput L k"
          by (rule stageTurn_take)
        then show ?thesis using jk "1.prems"(3) turn by (simp add: nth_append)
      qed
    qed
    show ?thesis
    proof (cases r)
      case (Inl e)
      then have "res = Inl e" "st' = st1"
        using "1.prems"(1) a turn by (simp_all add: stages.simps [of env s ms userInput k L st])
      moreover have "ended userInput (L @ [?e]) (Inl e)"
        using Inl by (simp add: ended_def)
      ultimately show ?thesis
        using calls1 conf1 gen1 m1 l1 "1.prems"(3,4,6)
        by (intro exI [of _ "L @ [?e]"]) simp
    next
      case (Inr v)
      show ?thesis
      proof (cases "k < 9")
        case True
        have run: "stages env s ms userInput (Suc k) (L @ [?e]) st1 = (res, st')"
          using "1.prems"(1) a Inr True turn
          by (simp add: stages.simps [of env s ms userInput k L st])
        have "\<forall>c \<in> set (L @ [?e]). succeeded c"
          using "1.prems"(6) Inr by (simp add: succeeded_def)
        with "1.IH" [OF turn a [symmetric] Inr True] run calls1 conf1 gen1 "1.prems"(3) True Inr
        obtain L' where "calls st' = C @ L'" "conforms ms userInput L'" "Suc k \<le> length L'"
            "length L' \<le> 10" "\<forall>c \<in> set (butlast L'). succeeded c" "ended userInput L' res"
            "genuine env s L'"
            "messages st' = messages st1" "isLoading st' = isLoading st1"
          by auto
        then show ?thesis using m1 l1 by (intro exI [of _ L']) simp
      next
        case False
        then have "res = Inr v" "st' = st1"
          using "1.prems"(1) a Inr turn
          by (simp_all add: stages.simps [of env s ms userInput k L st])
        moreover have "ended userInput (L @ [?e]) (Inr v)"
          using Inr False "1.prems"(3,4) by (simp add: ended_def)
        ultimately show ?thesis
          using calls1 conf1 gen1 m1 l1 "1.prems"(3,4,6)
          by (intro exI [of _ "L @ [?e]"]) simp
      qed
    qed
  qed
qed

text \<open>What one submission of a query that is not blank adds to the histories.\<close>

lemma handleSubmit_trace:
  assumes "trim userInput \<noteq> []"
  obtains L res where "calls (handleSubmit env userInput st) = calls st @ L"
    and "conforms (messages st) userInput L" and "1 \<le> length L" and "length L \<le> 10"
    and "\<forall>c \<in> set (butlast L). succeeded c"
    and "genuine env (apiSettings st) L"
    and "ended userInput L res"
    and "\<not> isLoading (handleSubmit env userInput st)"
    and "messages (handleSubmit env userInput st)
           = messages st @ [userTurn userInput,
               modelMessage (case res of Inr v \<Rightarrow> v | Inl e \<Rightarrow> JStr (errorMessage e))]"
proof -
  let ?st1 = "st\<lparr>messages := messages st @ [userTurn userInput], isLoading := True\<rparr>"
  obtain res st2 where p: "pipeline env (apiSettings st) (messages st @ [userTurn userInput]) userInput ?st1 = (res, st2)"
    by (cases "pipeline env (apiSettings st) (messages st @ [userTurn userInput]) userInput ?st1")
  then have "stages env (apiSettings st) (messages st) userInput 0 [] ?st1 = (res, st2)"
    by (simp add: pipeline_stages)
  from stages_trace [OF this, of "calls st"]
  obtain L where L: "calls st2 = calls st @ L" "conforms (messages st) userInput L"
      "length L \<le> 10" "\<forall>c \<in> set (butlast L). succeeded c"
      "ended userInput L res"
      "genuine env (apiSettings st) L"
      "messages st2 = messages ?st1" "isLoading st2 = isLoading ?st1"
    by (auto simp: conforms_def genuine_def)
  have ne: "L \<noteq> []"
    using L(5) by (auto simp: ended_def stageTurn_def split: sum.splits)
  have h: "handleSubmit env userInput st =
      (case res of
         Inr finalResponseText \<Rightarrow>
           st2\<lparr>isLoading := False, messages := messages st2 @ [modelMessage finalResponseText]\<rparr>
       | Inl error \<Rightarrow>
           st2\<lparr>isLoading := False,
               messages := messages st2 @ [modelMessage (JStr (errorMessage error))]\<rparr>)"
    using assms p by (simp add: handleSubmit_def Let_def split: sum.splits)
  show ?thesis
  proof (rule that [of L res])
    show "calls (handleSubmit env userInput st) = calls st @ L"
      using L(1) by (simp add: h split: sum.splits)
    show "\<not> isLoading (handleSubmit env userInput st)"
      by (simp add: h split: sum.splits)
    show "messages (handleSubmit env userInput st)
           = messages st @ [userTurn userInput,
               modelMessage (case res of Inr v \<Rightarrow> v | Inl e \<Rightarrow> JStr (errorMessage e))]"
      using L(7) by (simp add: h split: sum.splits)
    show "1 \<le> length L" using ne by (simp add: Suc_le_eq)
  qed (use L in simp_all)
qed

lemma issued_append: "calls st' = calls st @ L \<Longrightarrow> issued st st' = L"
  by (simp add: issued_def)

section \<open>Blank queries\<close>

lemma trim_blank:
  assumes "\<forall>c \<in> set q. isWhiteSpace c"
  shows "trim q = []"
proof -
  have blank: "dropWhile isWhiteSpace q = []"
    using assms by simp
  show ?thesis unfolding trim_def blank by simp
qed

text \<open>
  C5. For every empty or whitespace-only user query, submission is a no-op: the state
  after \<open>handleSubmit\<close> is the state before it, so the conversation and the loading state
  are unchanged and no adapter call and no request has been added to the histories.
\<close>

theorem blank_query_is_noop:
  assumes "\<forall>c \<in> set userInput. isWhiteSpace c"
  shows "handleSubmit env userInput st = st
       \<and> issued st (handleSubmit env userInput st) = []
       \<and> sent st (handleSubmit env userInput st) = []"
  using trim_blank [OF assms] by (simp add: handleSubmit_def issued_def sent_def)

theorem blank_query_is_noop_witness:
  "handleSubmit scripted (lit '' \<newline> '') (startState googleSettings tenTexts)
       = startState googleSettings tenTexts
   \<and> handleSubmit scripted [] (startState googleSettings tenTexts)
       = startState googleSettings tenTexts
   \<and> list_all isWhiteSpace (lit '' \<newline> '')"
proof -
  have h: "\<forall>c \<in> set (lit '' \<newline> ''). isWhiteSpace c"
    by (simp add: lit_def isWhiteSpace_def)
  show ?thesis
    using h blank_query_is_noop [OF h, of scripted "startState googleSettings tenTexts"]
      blank_query_is_noop [of "[]" scripted "startState googleSettings tenTexts"]
    by (simp add: list_all_iff)
qed

section \<open>Conversions to strings\<close>

lemma toString_string: "toString (JStr t) = Inr t"
  by simp

lemma userQueryWithPlan_Inr:
  "userQueryWithPlan userInput plan = Inr q \<longleftrightarrow>
     (\<exists>planText. toString plan = Inr planText
        \<and> q = lit ''User Query: \"'' @ userInput
                @ lit ''\"\<newline>\<newline>Execution Plan:\<newline>'' @ planText)"
  by (auto simp: userQueryWithPlan_def andThen_def split: sum.splits)

lemma refinementContext_four:
  assumes "i < 4"
  shows "refinementContext [a0, a1, a2, a3] i = Inr c \<longleftrightarrow>
     (\<exists>t0 t1 t2 t3. toString a0 = Inr t0 \<and> toString a1 = Inr t1
        \<and> toString a2 = Inr t2 \<and> toString a3 = Inr t3
        \<and> c = lit ''My initial response was: \"'' @ [t0, t1, t2, t3] ! i
             @ lit ''\". The other agents responded with: 1. \"''
             @ [t0, t1, t2, t3] ! (filter (\<lambda>j. j \<noteq> i) [0 ..< 4] ! 0)
             @ lit ''\" 2. \"''
             @ [t0, t1, t2, t3] ! (filter (\<lambda>j. j \<noteq> i) [0 ..< 4] ! 1)
             @ lit ''\" 3. \"''
             @ [t0, t1, t2, t3] ! (filter (\<lambda>j. j \<noteq> i) [0 ..< 4] ! 2)
             @ lit ''\". Based on this context, critically re-evaluate and provide a new, improved response.'')"
proof -
  obtain r0 r1 r2 r3 where r: "toString a0 = r0" "toString a1 = r1" "toString a2 = r2"
      "toString a3 = r3"
    by blast
  from assms consider "i = 0" | "i = 1" | "i = 2" | "i = 3" by linarith
  then show ?thesis
  proof cases
    case 1
    show ?thesis
      using r unfolding 1
      by (cases r0; cases r1; cases r2; cases r3)
         (auto simp: refinementContext_def otherAnswers_def at_def andThen_def upt_rec Let_def)
  next
    case 2
    show ?thesis
      using r unfolding 2
      by (cases r0; cases r1; cases r2; cases r3)
         (auto simp: refinementContext_def otherAnswers_def at_def andThen_def upt_rec Let_def)
  next
    case 3
    show ?thesis
      using r unfolding 3
      by (cases r0; cases r1; cases r2; cases r3)
         (auto simp: refinementContext_def otherAnswers_def at_def andThen_def upt_rec Let_def)
  next
    case 4
    show ?thesis
      using r unfolding 4
      by (cases r0; cases r1; cases r2; cases r3)
         (auto simp: refinementContext_def otherAnswers_def at_def andThen_def upt_rec Let_def)
  qed
qed

lemma refinementTurn_Inr:
  "refinementTurn q as i = Inr turn \<longleftrightarrow>
     (\<exists>c. refinementContext as i = Inr c
        \<and> turn = userTurn (q @ lit ''\<newline>\<newline>---INTERNAL CONTEXT---\<newline>'' @ c))"
  by (auto simp: refinementTurn_def andThen_def split: sum.splits)

lemma synthesizerTurn_Inr:
  "synthesizerTurn q [r0, r1, r2, r3] = Inr turn \<longleftrightarrow>
     (\<exists>t0 t1 t2 t3. toString r0 = Inr t0 \<and> toString r1 = Inr t1
        \<and> toString r2 = Inr t2 \<and> toString r3 = Inr t3
        \<and> turn = userTurn (q @ lit ''\<newline>\<newline>---INTERNAL CONTEXT---\<newline>''
             @ lit ''Here are the four refined responses to the user's query. Your task is to synthesize them into the best single, final answer.\<newline>\<newline>Refined Response 1:\<newline>\"''
             @ t0
             @ lit ''\"\<newline>\<newline>Refined Response 2:\<newline>\"'' @ t1
             @ lit ''\"\<newline>\<newline>Refined Response 3:\<newline>\"'' @ t2
             @ lit ''\"\<newline>\<newline>Refined Response 4:\<newline>\"'' @ t3
             @ lit ''\"''))"
  by (auto simp: synthesizerTurn_def synthesizerContext_def at_def andThen_def
        split: sum.splits)

text \<open>When the replies so far convert to strings, the next turn can be built.\<close>

lemma stageTurn_converts:
  assumes "\<forall>j < k. \<exists>t. toString (valueOf (c_result (L ! j))) = Inr t" and "k \<le> 9"
  shows "\<exists>turn. stageTurn userInput L k = Inr turn"
proof (cases "k = 0")
  case True
  then show ?thesis by (simp add: stageTurn_def)
next
  case False
  let ?v = "\<lambda>j. valueOf (c_result (L ! j))"
  have conv: "\<And>j. j < k \<Longrightarrow> \<exists>t. toString (?v j) = Inr t" using assms(1) by blast
  obtain p where p: "toString (?v 0) = Inr p" using conv [of 0] False by auto
  then obtain q where q: "userQueryWithPlan userInput (?v 0) = Inr q"
    by (simp add: userQueryWithPlan_Inr)
  show ?thesis
  proof (cases "k \<le> 4")
    case True
    then show ?thesis using False q by (simp add: stageTurn_def)
  next
    case k4: False
    show ?thesis
    proof (cases "k \<le> 8")
      case True
      have lt: "1 < k" "2 < k" "3 < k" "4 < k" using k4 by simp_all
      obtain t1 where "toString (?v 1) = Inr t1" using conv [OF lt(1)] by blast
      moreover obtain t2 where "toString (?v 2) = Inr t2" using conv [OF lt(2)] by blast
      moreover obtain t3 where "toString (?v 3) = Inr t3" using conv [OF lt(3)] by blast
      moreover obtain t4 where "toString (?v 4) = Inr t4" using conv [OF lt(4)] by blast
      moreover have "k - 5 < 4" using True k4 by simp
      ultimately obtain c where "refinementContext [?v 1, ?v 2, ?v 3, ?v 4] (k - 5) = Inr c"
        using refinementContext_four [of "k - 5" "?v 1" "?v 2" "?v 3" "?v 4"] by blast
      then show ?thesis
        using True k4 q by (simp add: stageTurn_def refinementTurn_def andThen_def)
    next
      case False
      then have "k = 9" using assms(2) by simp
      then have lt: "5 < k" "6 < k" "7 < k" "8 < k" by simp_all
      obtain t5 where "toString (?v 5) = Inr t5" using conv [OF lt(1)] by blast
      moreover obtain t6 where "toString (?v 6) = Inr t6" using conv [OF lt(2)] by blast
      moreover obtain t7 where "toString (?v 7) = Inr t7" using conv [OF lt(3)] by blast
      moreover obtain t8 where "toString (?v 8) = Inr t8" using conv [OF lt(4)] by blast
      ultimately obtain turn where "synthesizerTurn q [?v 5, ?v 6, ?v 7, ?v 8] = Inr turn"
        using synthesizerTurn_Inr by blast
      then show ?thesis using \<open>k = 9\<close> q by (simp add: stageTurn_def)
    qed
  qed
qed

section \<open>Runs of the pipeline\<close>

lemma trim_hi: "trim (lit ''hi'') \<noteq> []"
  by (simp add: trim_def lit_def isWhiteSpace_def)

lemma scripted_google_call:
  "world st = t # ts \<Longrightarrow> awaitCall scripted googleSettings c sys st
     = (Inr t, st\<lparr>world := ts,
                   requests := requests st @ [GenerateContent \<lparr>g_apiKey = lit ''AIza'', g_model = DEFAULT_MODEL_NAME, g_contents = c, g_systemInstruction = sys\<rparr>],
                   calls := calls st @ [\<lparr>c_contents = c, c_systemInstruction = sys, c_status = loadingStatus st, c_result = Inr t\<rparr>]\<rparr>)"
  by (simp add: awaitCall_def callGenerativeAI_def scripted_def googleSettings_def eventLoop_def lit_def)

lemma scripted_google_end:
  "world st = [] \<Longrightarrow> awaitCall scripted googleSettings c sys st
     = (Inl scriptEnded, st\<lparr>world := [],
                   requests := requests st @ [GenerateContent \<lparr>g_apiKey = lit ''AIza'', g_model = DEFAULT_MODEL_NAME, g_contents = c, g_systemInstruction = sys\<rparr>],
                   calls := calls st @ [\<lparr>c_contents = c, c_systemInstruction = sys, c_status = loadingStatus st, c_result = Inl scriptEnded\<rparr>]\<rparr>)"
  by (simp add: awaitCall_def callGenerativeAI_def scripted_def googleSettings_def eventLoop_def lit_def)

lemmas templates =
  userQueryWithPlan_def refinementTurn_def refinementContext_def synthesizerTurn_def
  synthesizerContext_def otherAnswers_def at_def andThen_def

lemma scripted_run:
  "map c_result (issued (startState googleSettings tenTexts)
      (handleSubmit scripted (lit ''hi'') (startState googleSettings tenTexts)))
     = map Inr tenTexts"
  by (simp add: handleSubmit_def pipeline_def initialLoop_unroll refineLoop_unroll Let_def
       scripted_google_call startState_def tenTexts_def trim_hi issued_def templates upt_rec)

lemma scripted_failing_run:
  "map c_result (issued (startState googleSettings (take 3 tenTexts))
      (handleSubmit scripted (lit ''hi'') (startState googleSettings (take 3 tenTexts))))
     = map Inr (take 3 tenTexts) @ [Inl scriptEnded]"
  by (simp add: handleSubmit_def pipeline_def initialLoop_unroll refineLoop_unroll Let_def
       scripted_google_call scripted_google_end startState_def tenTexts_def trim_hi issued_def
       templates)

lemma instructions_distinct:
  "distinct [STRATEGIST_SYSTEM_INSTRUCTION, INITIAL_SYSTEM_INSTRUCTION,
             REFINEMENT_SYSTEM_INSTRUCTION, SYNTHESIZER_SYSTEM_INSTRUCTION]"
  by (simp add: STRATEGIST_SYSTEM_INSTRUCTION_def INITIAL_SYSTEM_INSTRUCTION_def
        REFINEMENT_SYSTEM_INSTRUCTION_def SYNTHESIZER_SYSTEM_INSTRUCTION_def lit_def)

lemma stage_instructions:
  "map stageInstruction [0 ..< 10] =
     [STRATEGIST_SYSTEM_INSTRUCTION,
      INITIAL_SYSTEM_INSTRUCTION, INITIAL_SYSTEM_INSTRUCTION,
      INITIAL_SYSTEM_INSTRUCTION, INITIAL_SYSTEM_INSTRUCTION,
      REFINEMENT_SYSTEM_INSTRUCTION, REFINEMENT_SYSTEM_INSTRUCTION,
      REFINEMENT_SYSTEM_INSTRUCTION, REFINEMENT_SYSTEM_INSTRUCTION,
      SYNTHESIZER_SYSTEM_INSTRUCTION]"
  by (simp add: upt_rec stageInstruction_def)

lemma nth_butlast_mem: "Suc k < length L \<Longrightarrow> L ! k \<in> set (butlast L)"
  by (metis Suc_lessD Suc_less_eq length_butlast nth_butlast nth_mem Suc_pred' less_nat_zero_code not_gr_zero)

lemma issued_blank: "trim userInput = [] \<Longrightarrow> issued st (handleSubmit env userInput st) = []"
  by (simp add: handleSubmit_def issued_def)

text \<open>
  C1, amended. For every user query that is not empty or whitespace-only, a run in which
  no adapter call fails and each of the first nine replies can be converted to a string
  issues exactly ten adapter calls, in the order one strategize call, four initialize
  calls, four refine calls, one synthesize call (each kind has its own system
  instruction, and the four instructions differ). A reply that is a string can be
  converted.
\<close>

theorem all_success_run_issues_ten_calls:
  assumes "trim userInput \<noteq> []"
    and "\<forall>c \<in> set (issued st (handleSubmit env userInput st)). \<exists>v. c_result c = Inr v"
    and "\<forall>c \<in> set (take 9 (issued st (handleSubmit env userInput st))).
            \<exists>v t. c_result c = Inr v \<and> toString v = Inr t"
  shows "map c_systemInstruction (issued st (handleSubmit env userInput st)) =
           [STRATEGIST_SYSTEM_INSTRUCTION,
            INITIAL_SYSTEM_INSTRUCTION, INITIAL_SYSTEM_INSTRUCTION,
            INITIAL_SYSTEM_INSTRUCTION, INITIAL_SYSTEM_INSTRUCTION,
            REFINEMENT_SYSTEM_INSTRUCTION, REFINEMENT_SYSTEM_INSTRUCTION,
            REFINEMENT_SYSTEM_INSTRUCTION, REFINEMENT_SYSTEM_INSTRUCTION,
            SYNTHESIZER_SYSTEM_INSTRUCTION]
       \<and> length (issued st (handleSubmit env userInput st)) = 10
       \<and> distinct [STRATEGIST_SYSTEM_INSTRUCTION, INITIAL_SYSTEM_INSTRUCTION,
             REFINEMENT_SYSTEM_INSTRUCTION, SYNTHESIZER_SYSTEM_INSTRUCTION]
       \<and> toString (JStr text) = Inr text"
proof -
  obtain L res where L: "calls (handleSubmit env userInput st) = calls st @ L"
      "conforms (messages st) userInput L" "1 \<le> length L" "ended userInput L res"
    using handleSubmit_trace [OF assms(1), of env st] by metis
  have iss: "issued st (handleSubmit env userInput st) = L"
    using L(1) by (rule issued_append)
  have "last L \<in> set L" using L(3) by (cases L) auto
  then obtain v where v: "c_result (last L) = Inr v" using assms(2) iss by auto
  have len: "length L = 10"
  proof (cases res)
    case (Inr w)
    then show ?thesis using L(4) by (simp add: ended_def)
  next
    case (Inl e)
    then have short: "length L < 10" and e: "stageTurn userInput L (length L) = Inl e"
      using L(4) v by (auto simp: ended_def)
    have "\<forall>j < length L. \<exists>t. toString (valueOf (c_result (L ! j))) = Inr t"
    proof (intro allI impI)
      fix j assume j: "j < length L"
      then have "L ! j \<in> set (take 9 L)" using short by simp
      then obtain w t where "c_result (L ! j) = Inr w" "toString w = Inr t"
        using assms(3) iss by auto
      then show "\<exists>t. toString (valueOf (c_result (L ! j))) = Inr t"
        by (simp add: valueOf_def)
    qed
    from stageTurn_converts [OF this, of userInput] short e show ?thesis by simp
  qed
  have "map c_systemInstruction L = map stageInstruction [0 ..< length L]"
    using L(2) by (intro nth_equalityI) (simp_all add: conforms_def)
  then show ?thesis
    using len iss stage_instructions instructions_distinct by simp
qed

lemma scripted_replies:
  assumes "map c_result L = map Inr (map JStr ts)"
  shows "\<forall>c \<in> set L. \<exists>v t. c_result c = Inr v \<and> toString v = Inr t"
proof
  fix c assume "c \<in> set L"
  then have "c_result c \<in> set (map c_result L)" by simp
  then show "\<exists>v t. c_result c = Inr v \<and> toString v = Inr t" unfolding assms by auto
qed

lemma tenTexts_strings:
  "tenTexts = map JStr (map lit [''plan'', ''init0'', ''init1'', ''init2'', ''init3'',
                                  ''ref0'', ''ref1'', ''ref2'', ''ref3'', ''final''])"
  by (simp add: tenTexts_def)

theorem all_success_run_issues_ten_calls_witness:
  "map c_systemInstruction
     (issued (startState googleSettings tenTexts)
        (handleSubmit scripted (lit ''hi'') (startState googleSettings tenTexts))) =
           [STRATEGIST_SYSTEM_INSTRUCTION,
            INITIAL_SYSTEM_INSTRUCTION, INITIAL_SYSTEM_INSTRUCTION,
            INITIAL_SYSTEM_INSTRUCTION, INITIAL_SYSTEM_INSTRUCTION,
            REFINEMENT_SYSTEM_INSTRUCTION, REFINEMENT_SYSTEM_INSTRUCTION,
            REFINEMENT_SYSTEM_INSTRUCTION, REFINEMENT_SYSTEM_INSTRUCTION,
            SYNTHESIZER_SYSTEM_INSTRUCTION]
   \<and> map c_result (issued (startState googleSettings tenTexts)
        (handleSubmit scripted (lit ''hi'') (startState googleSettings tenTexts)))
       = map Inr tenTexts"
proof -
  let ?L = "issued (startState googleSettings tenTexts)
        (handleSubmit scripted (lit ''hi'') (startState googleSettings tenTexts))"
  have r: "\<forall>c \<in> set ?L. \<exists>v t. c_result c = Inr v \<and> toString v = Inr t"
    using scripted_run unfolding tenTexts_strings by (rule scripted_replies)
  then have s: "\<forall>c \<in> set ?L. \<exists>v. c_result c = Inr v" by blast
  have n: "\<forall>c \<in> set (take 9 ?L). \<exists>v t. c_result c = Inr v \<and> toString v = Inr t"
    using r by (meson in_set_takeD)
  from all_success_run_issues_ten_calls [OF trim_hi s n] scripted_run
  show ?thesis by simp
qed

lemma scripted_groq_await:
  assumes "world st = t # ts" and "messagesForApi c sys = Inr ms"
  shows "awaitCall scripted groqSettings c sys st
     = (Inr t, st\<lparr>world := ts,
                   requests := requests st @ [Fetch (chatRequest groqSettings ms)],
                   calls := calls st @ [\<lparr>c_contents = c, c_systemInstruction = sys,
                              c_status = loadingStatus st, c_result = Inr t\<rparr>]\<rparr>)"
proof -
  have "provider groqSettings \<noteq> google" "selectedKey groqSettings \<noteq> []"
    by (simp_all add: groqSettings_def selectedKey_def lit_def)
  then have c: "callGenerativeAI scripted groqSettings c sys st =
     (readResponse (provider groqSettings)
        (fst (fetch scripted (chatRequest groqSettings ms) (world st))),
      st\<lparr>world := snd (fetch scripted (chatRequest groqSettings ms) (world st)),
         requests := requests st @ [Fetch (chatRequest groqSettings ms)]\<rparr>)"
    using assms(2) by (rule callGenerativeAI_openai)
  show ?thesis
    unfolding awaitCall_def c using assms(1)
    by (simp add: scripted_def eventLoop_def readResponse_def ok_def
          choiceContent_def completion_def lit_def)
qed

lemma messagesForApi_userTurn:
  "messagesForApi [userTurn t] sys
     = Inr ((if sys \<noteq> [] then [\<lparr>m_role = lit ''system'', m_content = sys\<rparr>] else [])
            @ [\<lparr>m_role = lit ''user'', m_content = t\<rparr>])"
  by (simp add: messagesForApi_def userTurn_def join_def)

text \<open>
  C1 as stated fails, twice. The query of one space is not empty, its run has no failing
  call, and it issues no adapter call at all. And when the plan that the strategize call
  returns is an object that cannot be converted to a string, the run of the query "hi"
  has no failing call and issues that one call only.
\<close>

theorem all_success_runs_that_issue_fewer_calls:
  "lit '' '' \<noteq> []
   \<and> issued (startState googleSettings tenTexts)
        (handleSubmit scripted (lit '' '') (startState googleSettings tenTexts)) = []
   \<and> handleSubmit scripted (lit '' '') (startState googleSettings tenTexts)
        = startState googleSettings tenTexts
   \<and> trim (lit ''hi'') = lit ''hi''
   \<and> map c_result (issued (startState groqSettings (unprintable # tenTexts))
        (handleSubmit scripted (lit ''hi'') (startState groqSettings (unprintable # tenTexts))))
       = [Inr unprintable]
   \<and> toString unprintable = Inl cannotConvert"
proof -
  have a: "lit '' '' \<noteq> []
   \<and> issued (startState googleSettings tenTexts)
        (handleSubmit scripted (lit '' '') (startState googleSettings tenTexts)) = []
   \<and> handleSubmit scripted (lit '' '') (startState googleSettings tenTexts)
        = startState googleSettings tenTexts
   \<and> trim (lit ''hi'') = lit ''hi''"
    by (simp add: handleSubmit_def issued_def trim_def lit_def isWhiteSpace_def)
  have u: "toString unprintable = Inl cannotConvert"
    by (simp add: unprintable_def)
  have "map c_result (issued (startState groqSettings (unprintable # tenTexts))
        (handleSubmit scripted (lit ''hi'') (startState groqSettings (unprintable # tenTexts))))
       = [Inr unprintable]"
    by (simp add: handleSubmit_def pipeline_def Let_def trim_hi issued_def startState_def
          scripted_groq_await [OF _ messagesForApi_userTurn] userQueryWithPlan_def andThen_def u)
  then show ?thesis using a u by blast
qed

text \<open>
  C2, amended. If the adapter call number \<open>k\<close> of a submission fails with \<open>e\<close>, it is the
  last call issued (no call of a later stage, and none of the same stage, follows), the
  conversation gains the user turn and one model message and nothing else, and loading
  has ended. The model message is the message text of \<open>e\<close> when \<open>e\<close> is an \<open>Error\<close>, and
  the fixed apology when what was thrown is not an \<open>Error\<close>.
\<close>

theorem failure_ends_the_request:
  assumes "L = issued st (handleSubmit env userInput st)"
    and "k < length L" and "c_result (L ! k) = Inl e"
  shows "length L = Suc k
       \<and> messages (handleSubmit env userInput st)
           = messages st
             @ [\<lparr>role = lit ''user'', parts = [\<lparr>part_text = JStr userInput\<rparr>]\<rparr>,
                \<lparr>role = lit ''model'', parts = [\<lparr>part_text = JStr (case e of
                    Exception c message \<Rightarrow> message
                  | NonError \<Rightarrow> lit ''Sorry, I encountered an error. Please check your API keys and try again.'')\<rparr>]\<rparr>]
       \<and> \<not> isLoading (handleSubmit env userInput st)"
proof -
  have ne: "trim userInput \<noteq> []"
    using assms(1,2) issued_blank [of userInput st env] by auto
  obtain L' res where L': "calls (handleSubmit env userInput st) = calls st @ L'"
      "\<forall>c \<in> set (butlast L'). succeeded c"
      "\<not> isLoading (handleSubmit env userInput st)"
      "ended userInput L' res"
      "messages (handleSubmit env userInput st)
           = messages st @ [userTurn userInput,
               modelMessage (case res of Inr v \<Rightarrow> v | Inl e \<Rightarrow> JStr (errorMessage e))]"
    using handleSubmit_trace [OF ne, of env st] by metis
  have LL: "L' = L" using L'(1) assms(1) by (simp add: issued_append)
  have "\<not> Suc k < length L"
  proof
    assume "Suc k < length L"
    then have "succeeded (L ! k)" using L'(2) LL nth_butlast_mem by blast
    then show False using assms(3) by (simp add: succeeded_def)
  qed
  then have len: "length L = Suc k" using assms(2) by simp
  then have last: "last L = L ! k" by (cases L rule: rev_cases) (simp_all add: nth_append)
  then have "L ! k \<in> set L" using assms(2) by simp
  then have "\<not> list_all succeeded L"
    using assms(3) by (auto simp: list_all_iff succeeded_def intro!: bexI [of _ "L ! k"])
  then have "res = Inl e"
    using L'(4) last assms(3) unfolding LL by (cases res) (auto simp: ended_def)
  then show ?thesis
    using len L'(3,5) by (simp add: errorMessage_def userTurn_def modelMessage_def)
qed

theorem failure_ends_the_request_witness:
  "map c_result (issued (startState googleSettings (take 3 tenTexts))
      (handleSubmit scripted (lit ''hi'') (startState googleSettings (take 3 tenTexts))))
     = [Inr (JStr (lit ''plan'')), Inr (JStr (lit ''init0'')), Inr (JStr (lit ''init1'')),
        Inl (Exception OtherError (lit ''quota exceeded''))]
   \<and> messages (handleSubmit scripted (lit ''hi'') (startState googleSettings (take 3 tenTexts)))
       = [\<lparr>role = lit ''user'', parts = [\<lparr>part_text = JStr (lit ''hi'')\<rparr>]\<rparr>,
          \<lparr>role = lit ''model'', parts = [\<lparr>part_text = JStr (lit ''quota exceeded'')\<rparr>]\<rparr>]
   \<and> \<not> isLoading (handleSubmit scripted (lit ''hi'') (startState googleSettings (take 3 tenTexts)))"
proof -
  let ?st = "startState googleSettings (take 3 tenTexts)"
  let ?L = "issued ?st (handleSubmit scripted (lit ''hi'') ?st)"
  have len: "length ?L = 4"
    using arg_cong [OF scripted_failing_run, of length] by (simp add: tenTexts_def)
  have "map c_result ?L ! 3 = Inl scriptEnded"
    unfolding scripted_failing_run by (simp add: tenTexts_def)
  then have "c_result (?L ! 3) = Inl scriptEnded"
    using len by simp
  from failure_ends_the_request [OF refl _ this] len
  have m: "messages (handleSubmit scripted (lit ''hi'') ?st)
       = [\<lparr>role = lit ''user'', parts = [\<lparr>part_text = JStr (lit ''hi'')\<rparr>]\<rparr>,
          \<lparr>role = lit ''model'', parts = [\<lparr>part_text = JStr (lit ''quota exceeded'')\<rparr>]\<rparr>]
     \<and> \<not> isLoading (handleSubmit scripted (lit ''hi'') ?st)"
    by (simp add: scriptEnded_def startState_def)
  have "map c_result ?L
     = [Inr (JStr (lit ''plan'')), Inr (JStr (lit ''init0'')), Inr (JStr (lit ''init1'')),
        Inl (Exception OtherError (lit ''quota exceeded''))]"
    unfolding scripted_failing_run by (simp add: tenTexts_def scriptEnded_def)
  then show ?thesis using m by blast
qed

text \<open>
  C2 as stated fails when what a call throws is not an \<open>Error\<close>: such a value has no
  message text, and the fixed apology is displayed.
\<close>

theorem non_error_failure_displays_the_apology:
  "map c_result (issued (startState googleSettings ())
      (handleSubmit rejecting (lit ''hi'') (startState googleSettings ()))) = [Inl NonError]
   \<and> messages (handleSubmit rejecting (lit ''hi'') (startState googleSettings ()))
       = [\<lparr>role = lit ''user'', parts = [\<lparr>part_text = JStr (lit ''hi'')\<rparr>]\<rparr>,
          \<lparr>role = lit ''model'', parts = [\<lparr>part_text = JStr
             (lit ''Sorry, I encountered an error. Please check your API keys and try again.'')\<rparr>]\<rparr>]"
proof -
  have a: "awaitCall rejecting googleSettings c sys st
      = (Inl NonError,
         st\<lparr>requests := requests st @ [GenerateContent \<lparr>g_apiKey = lit ''AIza'',
               g_model = DEFAULT_MODEL_NAME, g_contents = c, g_systemInstruction = sys\<rparr>],
            calls := calls st @ [\<lparr>c_contents = c, c_systemInstruction = sys,
                                   c_status = loadingStatus st, c_result = Inl NonError\<rparr>]\<rparr>)"
    for c sys and st :: "unit state"
    by (simp add: awaitCall_def callGenerativeAI_def rejecting_def googleSettings_def
          eventLoop_def lit_def)
  show ?thesis
    by (simp add: handleSubmit_def pipeline_def Let_def a trim_hi startState_def issued_def
          errorMessage_def userTurn_def modelMessage_def)
qed

lemma early_calls_succeeded:
  assumes "\<forall>c \<in> set (butlast L). succeeded c" and "Suc j < length L"
  shows "c_result (L ! j) = Inr (valueOf (c_result (L ! j)))"
proof -
  have "succeeded (L ! j)" using assms nth_butlast_mem by blast
  then show ?thesis by (simp add: succeeded_def valueOf_def split: sum.splits)
qed

text \<open>
  C3. For every slot \<open>i\<close> in 0..3 whose refinement call was issued: the plan and the four
  initial results exist and have been converted to strings, the call carries the refiner
  instruction, and its turn is a user turn whose text is the planned turn's text (the
  query in quotes after "User Query: ", then the plan after "Execution Plan:") followed
  by the context block in which initial result \<open>i\<close> is "my initial response" and the
  other three, in ascending index order without \<open>i\<close>, are the responses 1, 2 and 3 of the
  other agents. A result that is a string is converted to itself.
\<close>

theorem refinement_call_self_and_peers:
  assumes "L = issued st (handleSubmit env userInput st)"
    and "i < 4" and "5 + i < length L"
    and "peers = filter (\<lambda>j. j \<noteq> i) [0 ..< 4]"
  shows "(\<exists>plan a0 a1 a2 a3 planText t0 t1 t2 t3.
           c_result (L ! 0) = Inr plan
         \<and> c_result (L ! 1) = Inr a0 \<and> c_result (L ! 2) = Inr a1
         \<and> c_result (L ! 3) = Inr a2 \<and> c_result (L ! 4) = Inr a3
         \<and> toString plan = Inr planText
         \<and> toString a0 = Inr t0 \<and> toString a1 = Inr t1
         \<and> toString a2 = Inr t2 \<and> toString a3 = Inr t3
         \<and> c_systemInstruction (L ! (5 + i)) = REFINEMENT_SYSTEM_INSTRUCTION
         \<and> c_contents (L ! (5 + i)) =
             messages st @
             [\<lparr>role = lit ''user'', parts = [\<lparr>part_text = JStr
                (lit ''User Query: \"'' @ userInput
                 @ lit ''\"\<newline>\<newline>Execution Plan:\<newline>'' @ planText
                 @ lit ''\<newline>\<newline>---INTERNAL CONTEXT---\<newline>''
                 @ lit ''My initial response was: \"'' @ [t0, t1, t2, t3] ! i
                 @ lit ''\". The other agents responded with: 1. \"''
                 @ [t0, t1, t2, t3] ! (peers ! 0)
                 @ lit ''\" 2. \"'' @ [t0, t1, t2, t3] ! (peers ! 1)
                 @ lit ''\" 3. \"'' @ [t0, t1, t2, t3] ! (peers ! 2)
                 @ lit ''\". Based on this context, critically re-evaluate and provide a new, improved response.'')\<rparr>]\<rparr>])
       \<and> toString (JStr text) = Inr text"
proof -
  have ne: "trim userInput \<noteq> []"
    using assms(1,3) issued_blank [of userInput st env] by auto
  obtain L' where L': "calls (handleSubmit env userInput st) = calls st @ L'"
      "conforms (messages st) userInput L'" "\<forall>c \<in> set (butlast L'). succeeded c"
    using handleSubmit_trace [OF ne, of env st] by metis
  have LL: "L' = L" using L'(1) assms(1) by (simp add: issued_append)
  let ?v = "\<lambda>j. valueOf (c_result (L ! j))"
  have ok: "c_result (L ! j) = Inr (?v j)" if "j \<le> 4" for j
    using early_calls_succeeded [OF L'(3) [unfolded LL], of j] that assms(3) by simp
  obtain turn where turn: "stageTurn userInput L (5 + i) = Inr turn"
      "c_contents (L ! (5 + i)) = messages st @ [turn]"
    and sys: "c_systemInstruction (L ! (5 + i)) = stageInstruction (5 + i)"
    using L'(2) assms(3) unfolding LL conforms_def by blast
  from turn(1) obtain q where q: "userQueryWithPlan userInput (?v 0) = Inr q"
      and r: "refinementTurn q [?v 1, ?v 2, ?v 3, ?v 4] i = Inr turn"
    using assms(2) by (auto simp: stageTurn_def split: sum.splits)
  from q obtain planText where p: "toString (?v 0) = Inr planText"
      "q = lit ''User Query: \"'' @ userInput
           @ lit ''\"\<newline>\<newline>Execution Plan:\<newline>'' @ planText"
    unfolding userQueryWithPlan_Inr by blast
  from r obtain c where c: "refinementContext [?v 1, ?v 2, ?v 3, ?v 4] i = Inr c"
      "turn = userTurn (q @ lit ''\<newline>\<newline>---INTERNAL CONTEXT---\<newline>'' @ c)"
    unfolding refinementTurn_Inr by blast
  from c(1) obtain t0 t1 t2 t3 where t: "toString (?v 1) = Inr t0" "toString (?v 2) = Inr t1"
      "toString (?v 3) = Inr t2" "toString (?v 4) = Inr t3"
      "c = lit ''My initial response was: \"'' @ [t0, t1, t2, t3] ! i
             @ lit ''\". The other agents responded with: 1. \"''
             @ [t0, t1, t2, t3] ! (peers ! 0)
             @ lit ''\" 2. \"'' @ [t0, t1, t2, t3] ! (peers ! 1)
             @ lit ''\" 3. \"'' @ [t0, t1, t2, t3] ! (peers ! 2)
             @ lit ''\". Based on this context, critically re-evaluate and provide a new, improved response.''"
    unfolding refinementContext_four [OF assms(2)] assms(4) by blast
  have oks: "c_result (L ! 0) = Inr (?v 0)" "c_result (L ! 1) = Inr (?v 1)"
      "c_result (L ! 2) = Inr (?v 2)" "c_result (L ! 3) = Inr (?v 3)"
      "c_result (L ! 4) = Inr (?v 4)"
    using ok by simp_all
  have ins: "c_systemInstruction (L ! (5 + i)) = REFINEMENT_SYSTEM_INSTRUCTION"
    using sys assms(2) by (simp add: stageInstruction_def)
  have con: "c_contents (L ! (5 + i)) =
             messages st @
             [\<lparr>role = lit ''user'', parts = [\<lparr>part_text = JStr
                (lit ''User Query: \"'' @ userInput
                 @ lit ''\"\<newline>\<newline>Execution Plan:\<newline>'' @ planText
                 @ lit ''\<newline>\<newline>---INTERNAL CONTEXT---\<newline>''
                 @ lit ''My initial response was: \"'' @ [t0, t1, t2, t3] ! i
                 @ lit ''\". The other agents responded with: 1. \"''
                 @ [t0, t1, t2, t3] ! (peers ! 0)
                 @ lit ''\" 2. \"'' @ [t0, t1, t2, t3] ! (peers ! 1)
                 @ lit ''\" 3. \"'' @ [t0, t1, t2, t3] ! (peers ! 2)
                 @ lit ''\". Based on this context, critically re-evaluate and provide a new, improved response.'')\<rparr>]\<rparr>]"
    unfolding turn(2) c(2) p(2) t(5) by (simp add: userTurn_def)
  show ?thesis
    by (rule conjI, rule exI [of _ "?v 0"], rule exI [of _ "?v 1"], rule exI [of _ "?v 2"],
        rule exI [of _ "?v 3"], rule exI [of _ "?v 4"], rule exI [of _ planText],
        rule exI [of _ t0], rule exI [of _ t1], rule exI [of _ t2], rule exI [of _ t3],
        intro conjI)
       (fact oks p(1) t(1-4) ins con toString_string)+
qed

lemma length_tenTexts: "length tenTexts = 10"
  by (simp add: tenTexts_def)

lemma results_nth:
  assumes "map c_result L = map Inr vs" and "k < length vs"
  shows "c_result (L ! k) = Inr (vs ! k)"
proof -
  have "length L = length vs" using arg_cong [OF assms(1), of length] by simp
  then have "c_result (L ! k) = map c_result L ! k" using assms(2) by simp
  also have "\<dots> = Inr (vs ! k)" unfolding assms(1) using assms(2) by simp
  finally show ?thesis .
qed

lemma scripted_results:
  assumes "k < 10"
  shows "c_result (issued (startState googleSettings tenTexts)
            (handleSubmit scripted (lit ''hi'') (startState googleSettings tenTexts)) ! k)
         = Inr (tenTexts ! k)"
  using results_nth [OF scripted_run] assms by (simp add: length_tenTexts)

theorem refinement_call_self_and_peers_witness:
  "c_contents (issued (startState googleSettings tenTexts)
      (handleSubmit scripted (lit ''hi'') (startState googleSettings tenTexts)) ! 7) =
     [\<lparr>role = lit ''user'', parts = [\<lparr>part_text = JStr
        (lit ''User Query: \"hi\"\<newline>\<newline>Execution Plan:\<newline>plan\<newline>\<newline>---INTERNAL CONTEXT---\<newline>My initial response was: \"init2\". The other agents responded with: 1. \"init0\" 2. \"init1\" 3. \"init3\". Based on this context, critically re-evaluate and provide a new, improved response.'')\<rparr>]\<rparr>]"
proof -
  let ?st = "startState googleSettings tenTexts"
  let ?L = "issued ?st (handleSubmit scripted (lit ''hi'') ?st)"
  have len: "5 + 2 < length ?L"
    using arg_cong [OF scripted_run, of length] by (simp add: tenTexts_def)
  have two: "(2::nat) < 4" by simp
  from refinement_call_self_and_peers [OF refl two len refl, THEN conjunct1]
  obtain plan a0 a1 a2 a3 planText t0 t1 t2 t3 where h: "c_result (?L ! 0) = Inr plan"
      "c_result (?L ! 1) = Inr a0" "c_result (?L ! 2) = Inr a1"
      "c_result (?L ! 3) = Inr a2" "c_result (?L ! 4) = Inr a3"
    and s: "toString plan = Inr planText" "toString a0 = Inr t0" "toString a1 = Inr t1"
      "toString a2 = Inr t2" "toString a3 = Inr t3"
    and c: "c_contents (?L ! (5 + 2)) =
             messages ?st @
             [\<lparr>role = lit ''user'', parts = [\<lparr>part_text = JStr
                (lit ''User Query: \"'' @ lit ''hi''
                 @ lit ''\"\<newline>\<newline>Execution Plan:\<newline>'' @ planText
                 @ lit ''\<newline>\<newline>---INTERNAL CONTEXT---\<newline>''
                 @ lit ''My initial response was: \"'' @ [t0, t1, t2, t3] ! 2
                 @ lit ''\". The other agents responded with: 1. \"''
                 @ [t0, t1, t2, t3] ! (filter (\<lambda>j. j \<noteq> 2) [0 ..< 4] ! 0)
                 @ lit ''\" 2. \"'' @ [t0, t1, t2, t3] ! (filter (\<lambda>j. j \<noteq> 2) [0 ..< 4] ! 1)
                 @ lit ''\" 3. \"'' @ [t0, t1, t2, t3] ! (filter (\<lambda>j. j \<noteq> 2) [0 ..< 4] ! 2)
                 @ lit ''\". Based on this context, critically re-evaluate and provide a new, improved response.'')\<rparr>]\<rparr>]"
    by (elim exE conjE) (rule that, assumption+)
  have v: "plan = tenTexts ! 0" "a0 = tenTexts ! 1" "a1 = tenTexts ! 2" "a2 = tenTexts ! 3"
      "a3 = tenTexts ! 4"
    using h by (simp_all add: scripted_results)
  have t: "tenTexts ! 0 = JStr (lit ''plan'')" "tenTexts ! 1 = JStr (lit ''init0'')"
      "tenTexts ! 2 = JStr (lit ''init1'')" "tenTexts ! 3 = JStr (lit ''init2'')"
      "tenTexts ! 4 = JStr (lit ''init3'')"
    by (simp_all add: tenTexts_def)
  have w: "planText = lit ''plan''" "t0 = lit ''init0''" "t1 = lit ''init1''"
      "t2 = lit ''init2''" "t3 = lit ''init3''"
    using s unfolding v t by simp_all
  have m: "messages ?st = []" by (simp add: startState_def)
  show ?thesis
    using c unfolding w m by (simp add: upt_rec lit_def)
qed

text \<open>
  C6. If the ten adapter calls of a submission return "plan", "init0".."init3",
  "ref0".."ref3", "final" in this order, the displayed result is a model message with
  the text "final", and the synthesis call's turn is a user turn whose text is the
  planned turn's text followed by the context block that lists "ref0".."ref3" in index
  order as Refined Response 1..4.
\<close>

theorem stub_round_trip:
  assumes "L = issued st (handleSubmit env userInput st)"
    and "map c_result L =
           [Inr (JStr (lit ''plan'')),
            Inr (JStr (lit ''init0'')), Inr (JStr (lit ''init1'')),
            Inr (JStr (lit ''init2'')), Inr (JStr (lit ''init3'')),
            Inr (JStr (lit ''ref0'')), Inr (JStr (lit ''ref1'')),
            Inr (JStr (lit ''ref2'')), Inr (JStr (lit ''ref3'')),
            Inr (JStr (lit ''final''))]"
  shows "messages (handleSubmit env userInput st)
           = messages st
             @ [\<lparr>role = lit ''user'', parts = [\<lparr>part_text = JStr userInput\<rparr>]\<rparr>,
                \<lparr>role = lit ''model'', parts = [\<lparr>part_text = JStr (lit ''final'')\<rparr>]\<rparr>]
       \<and> \<not> isLoading (handleSubmit env userInput st)
       \<and> c_systemInstruction (L ! 9) = SYNTHESIZER_SYSTEM_INSTRUCTION
       \<and> c_contents (L ! 9) =
           messages st @
           [\<lparr>role = lit ''user'', parts = [\<lparr>part_text = JStr
              (lit ''User Query: \"'' @ userInput
               @ lit ''\"\<newline>\<newline>Execution Plan:\<newline>plan\<newline>\<newline>---INTERNAL CONTEXT---\<newline>Here are the four refined responses to the user's query. Your task is to synthesize them into the best single, final answer.\<newline>\<newline>Refined Response 1:\<newline>\"ref0\"\<newline>\<newline>Refined Response 2:\<newline>\"ref1\"\<newline>\<newline>Refined Response 3:\<newline>\"ref2\"\<newline>\<newline>Refined Response 4:\<newline>\"ref3\"'')\<rparr>]\<rparr>]"
proof -
  have results: "map c_result L = map Inr tenTexts"
    unfolding assms(2) by (simp add: tenTexts_def)
  have len: "length L = 10"
    using arg_cong [OF results, of length] by (simp add: tenTexts_def)
  have res: "c_result (L ! k) = Inr (tenTexts ! k)" if "k < 10" for k
    using results_nth [OF results] that by (simp add: length_tenTexts)
  have ne: "trim userInput \<noteq> []"
    using assms(1) len issued_blank [of userInput st env] by auto
  obtain L' r where L': "calls (handleSubmit env userInput st) = calls st @ L'"
      "conforms (messages st) userInput L'"
      "\<not> isLoading (handleSubmit env userInput st)"
      "ended userInput L' r"
      "messages (handleSubmit env userInput st)
           = messages st @ [userTurn userInput,
               modelMessage (case r of Inr v \<Rightarrow> v | Inl e \<Rightarrow> JStr (errorMessage e))]"
    using handleSubmit_trace [OF ne, of env st] by metis
  have LL: "L' = L" using L'(1) assms(1) by (simp add: issued_append)
  have "L \<noteq> []" using len by auto
  then have "last L = L ! 9" using len by (simp add: last_conv_nth)
  then have "c_result (last L) = Inr (JStr (lit ''final''))"
    using res [of 9] by (simp add: tenTexts_def)
  then have "r = Inr (JStr (lit ''final''))"
    using L'(4) len unfolding LL by (cases r) (auto simp: ended_def)
  then have m: "messages (handleSubmit env userInput st)
           = messages st
             @ [\<lparr>role = lit ''user'', parts = [\<lparr>part_text = JStr userInput\<rparr>]\<rparr>,
                \<lparr>role = lit ''model'', parts = [\<lparr>part_text = JStr (lit ''final'')\<rparr>]\<rparr>]"
    using L'(5) by (simp add: userTurn_def modelMessage_def)
  obtain turn where turn: "stageTurn userInput L 9 = Inr turn"
      "c_contents (L ! 9) = messages st @ [turn]"
    and sys: "c_systemInstruction (L ! 9) = stageInstruction 9"
  proof -
    have "9 < length L" using len by simp
    then show ?thesis using L'(2) that unfolding LL conforms_def by blast
  qed
  have v: "valueOf (c_result (L ! k)) = tenTexts ! k" if "k < 10" for k
    using res [OF that] by (simp add: valueOf_def)
  have "stageTurn userInput L 9 = Inr \<lparr>role = lit ''user'', parts = [\<lparr>part_text = JStr
              (lit ''User Query: \"'' @ userInput
               @ lit ''\"\<newline>\<newline>Execution Plan:\<newline>plan\<newline>\<newline>---INTERNAL CONTEXT---\<newline>Here are the four refined responses to the user's query. Your task is to synthesize them into the best single, final answer.\<newline>\<newline>Refined Response 1:\<newline>\"ref0\"\<newline>\<newline>Refined Response 2:\<newline>\"ref1\"\<newline>\<newline>Refined Response 3:\<newline>\"ref2\"\<newline>\<newline>Refined Response 4:\<newline>\"ref3\"'')\<rparr>]\<rparr>"
    by (simp add: stageTurn_def v templates userTurn_def tenTexts_def lit_def)
  then show ?thesis
    using m L'(3) turn sys by (simp add: stageInstruction_def)
qed

theorem stub_round_trip_witness:
  "messages (handleSubmit scripted (lit ''hi'') (startState googleSettings tenTexts))
     = [\<lparr>role = lit ''user'', parts = [\<lparr>part_text = JStr (lit ''hi'')\<rparr>]\<rparr>,
        \<lparr>role = lit ''model'', parts = [\<lparr>part_text = JStr (lit ''final'')\<rparr>]\<rparr>]
   \<and> \<not> isLoading (handleSubmit scripted (lit ''hi'') (startState googleSettings tenTexts))
   \<and> c_contents (issued (startState googleSettings tenTexts)
        (handleSubmit scripted (lit ''hi'') (startState googleSettings tenTexts)) ! 9) =
       [\<lparr>role = lit ''user'', parts = [\<lparr>part_text = JStr
          (lit ''User Query: \"hi\"\<newline>\<newline>Execution Plan:\<newline>plan\<newline>\<newline>---INTERNAL CONTEXT---\<newline>Here are the four refined responses to the user's query. Your task is to synthesize them into the best single, final answer.\<newline>\<newline>Refined Response 1:\<newline>\"ref0\"\<newline>\<newline>Refined Response 2:\<newline>\"ref1\"\<newline>\<newline>Refined Response 3:\<newline>\"ref2\"\<newline>\<newline>Refined Response 4:\<newline>\"ref3\"'')\<rparr>]\<rparr>]"
proof -
  have r: "map c_result (issued (startState googleSettings tenTexts)
      (handleSubmit scripted (lit ''hi'') (startState googleSettings tenTexts))) =
           [Inr (JStr (lit ''plan'')),
            Inr (JStr (lit ''init0'')), Inr (JStr (lit ''init1'')),
            Inr (JStr (lit ''init2'')), Inr (JStr (lit ''init3'')),
            Inr (JStr (lit ''ref0'')), Inr (JStr (lit ''ref1'')),
            Inr (JStr (lit ''ref2'')), Inr (JStr (lit ''ref3'')),
            Inr (JStr (lit ''final''))]"
    unfolding scripted_run by (simp add: tenTexts_def)
  have m: "messages (startState googleSettings tenTexts) = []"
    by (simp add: startState_def)
  from stub_round_trip [OF refl r] show ?thesis
    unfolding m by (simp add: lit_def)
qed

section \<open>Settings saved while a request is in flight\<close>

lemma callGenerativeAI_deterministic:
  assumes "deterministic env"
  shows "fst (callGenerativeAI env s c sys st) = fst (callGenerativeAI env s c sys st')"
proof (cases "selectedKey s = []")
  case True
  then show ?thesis by (simp add: callGenerativeAI_no_key)
next
  case False
  show ?thesis
  proof (cases "provider s = google")
    case True
    have "fst (generateContent env (googleParams s c sys) (world st))
        = fst (generateContent env (googleParams s c sys) (world st'))"
      using assms unfolding deterministic_def by blast
    then show ?thesis using True False by (simp add: callGenerativeAI_google)
  next
    case notg: False
    show ?thesis
    proof (cases "messagesForApi c sys")
      case (Inl e)
      then show ?thesis using notg False by (simp add: callGenerativeAI_unjoinable)
    next
      case (Inr ms)
      have "fst (fetch env (chatRequest s ms) (world st))
          = fst (fetch env (chatRequest s ms) (world st'))"
        using assms unfolding deterministic_def by blast
      then show ?thesis using notg False Inr by (simp add: callGenerativeAI_openai)
    qed
  qed
qed

lemma callGenerativeAI_sameRun:
  assumes "generateContent env = generateContent env'" and "fetch env = fetch env'"
    and "sameRun st1 st2"
  shows "fst (callGenerativeAI env s c sys st1) = fst (callGenerativeAI env' s c sys st2)
       \<and> sameRun (snd (callGenerativeAI env s c sys st1)) (snd (callGenerativeAI env' s c sys st2))"
proof (cases "selectedKey s = []")
  case True
  then show ?thesis using assms(3) by (simp add: callGenerativeAI_no_key)
next
  case False
  show ?thesis
  proof (cases "provider s = google")
    case True
    then show ?thesis
      using False assms by (simp add: callGenerativeAI_google sameRun_def)
  next
    case notg: False
    show ?thesis
    proof (cases "messagesForApi c sys")
      case (Inl e)
      then show ?thesis using notg False assms(3) by (simp add: callGenerativeAI_unjoinable)
    next
      case (Inr ms)
      then show ?thesis
        using notg False assms by (simp add: callGenerativeAI_openai sameRun_def)
    qed
  qed
qed

lemma eventLoop_sameRun: "sameRun (eventLoop env st) st"
proof -
  obtain a l where "eventLoop env st = st\<lparr>apiSettings := a, localStorage := l\<rparr>"
    using eventLoop_frame by blast
  then show ?thesis by (simp add: sameRun_def)
qed

lemma sameRun_trans: "sameRun a b \<Longrightarrow> sameRun b c \<Longrightarrow> sameRun a c"
  by (simp add: sameRun_def)

lemma sameRun_sym: "sameRun a b \<Longrightarrow> sameRun b a"
  by (simp add: sameRun_def)

lemma awaitCall_sameRun:
  assumes "generateContent env = generateContent env'" and "fetch env = fetch env'"
    and "sameRun st1 st2"
  shows "fst (awaitCall env s c sys st1) = fst (awaitCall env' s c sys st2)
       \<and> sameRun (snd (awaitCall env s c sys st1)) (snd (awaitCall env' s c sys st2))"
proof -
  let ?e = "\<lambda>st r. \<lparr>c_contents = c, c_systemInstruction = sys,
                     c_status = loadingStatus st, c_result = r\<rparr>"
  obtain r1 u1 where c1: "callGenerativeAI env s c sys st1 = (r1, u1)"
    by (cases "callGenerativeAI env s c sys st1")
  obtain r2 u2 where c2: "callGenerativeAI env' s c sys st2 = (r2, u2)"
    by (cases "callGenerativeAI env' s c sys st2")
  from callGenerativeAI_sameRun [OF assms, of s c sys]
  have r: "r1 = r2" and u: "sameRun u1 u2" by (simp_all add: c1 c2)
  have a1: "awaitCall env s c sys st1 = (r1, eventLoop env (u1\<lparr>calls := calls u1 @ [?e st1 r1]\<rparr>))"
    by (simp add: awaitCall_def c1)
  have a2: "awaitCall env' s c sys st2 = (r2, eventLoop env' (u2\<lparr>calls := calls u2 @ [?e st2 r2]\<rparr>))"
    by (simp add: awaitCall_def c2)
  have "sameRun (u1\<lparr>calls := calls u1 @ [?e st1 r1]\<rparr>) (u2\<lparr>calls := calls u2 @ [?e st2 r2]\<rparr>)"
    using u r assms(3) by (simp add: sameRun_def)
  then have "sameRun (eventLoop env (u1\<lparr>calls := calls u1 @ [?e st1 r1]\<rparr>))
                     (eventLoop env' (u2\<lparr>calls := calls u2 @ [?e st2 r2]\<rparr>))"
    by (meson eventLoop_sameRun sameRun_trans sameRun_sym)
  then show ?thesis using r by (simp add: a1 a2)
qed

lemma stages_sameRun:
  assumes "generateContent env = generateContent env'" and "fetch env = fetch env'"
    and "sameRun st1 st2"
  shows "fst (stages env s ms userInput k L st1) = fst (stages env' s ms userInput k L st2)
       \<and> sameRun (snd (stages env s ms userInput k L st1)) (snd (stages env' s ms userInput k L st2))"
  using assms
proof (induction env s ms userInput k L st1 arbitrary: st2 rule: stages.induct)
  case (1 env s ms userInput k L st)
  let ?st = "st\<lparr>loadingStatus := stageStatus k\<rparr>"
  let ?st2 = "st2\<lparr>loadingStatus := stageStatus k\<rparr>"
  have same: "sameRun ?st ?st2" using "1.prems"(3) by (simp add: sameRun_def)
  show ?case
  proof (cases "stageTurn userInput L k")
    case (Inl e)
    then show ?thesis
      using same "1.prems"(3)
      by (simp add: stages.simps [of env s ms userInput k L st]
            stages.simps [of env' s ms userInput k L st2])
  next
    case turn: (Inr turn)
    let ?c = "ms @ [turn]"
    obtain r u where a: "awaitCall env s ?c (stageInstruction k) ?st = (r, u)"
      by (cases "awaitCall env s ?c (stageInstruction k) ?st")
    obtain r' u' where a': "awaitCall env' s ?c (stageInstruction k) ?st2 = (r', u')"
      by (cases "awaitCall env' s ?c (stageInstruction k) ?st2")
    from awaitCall_sameRun [OF "1.prems"(1,2) same, of s ?c "stageInstruction k"]
    have r: "r' = r" and u: "sameRun u u'" by (simp_all add: a a')
    show ?thesis
    proof (cases r)
      case (Inl e)
      then show ?thesis
        using a a' r u turn
        by (simp add: stages.simps [of env s ms userInput k L st]
              stages.simps [of env' s ms userInput k L st2])
    next
      case (Inr v)
      show ?thesis
      proof (cases "k < 9")
        case True
        from "1.IH" [OF turn a [symmetric] Inr True "1.prems"(1,2) u]
        show ?thesis
          using a a' r Inr True turn
          by (simp add: stages.simps [of env s ms userInput k L st]
                stages.simps [of env' s ms userInput k L st2])
      next
        case False
        then show ?thesis
          using a a' r u Inr turn
          by (simp add: stages.simps [of env s ms userInput k L st]
                stages.simps [of env' s ms userInput k L st2])
      qed
    qed
  qed
qed

text \<open>
  C9. Whatever settings the user saves while a request is in flight, the request behaves
  as in the run where nothing is saved: the same adapter calls with the same inputs and
  outcomes, the same requests to the provider (with the provider, model and key captured
  at submission), the same conversation, loading state and progress label, and the same
  world. Only the settings cell and its stored copy can differ.
\<close>

theorem settings_change_mid_flight_has_no_effect:
  assumes "unchanged = env\<lparr>saves := (\<lambda>w. [])\<rparr>"
  shows "calls (handleSubmit env userInput st) = calls (handleSubmit unchanged userInput st)
       \<and> requests (handleSubmit env userInput st) = requests (handleSubmit unchanged userInput st)
       \<and> messages (handleSubmit env userInput st) = messages (handleSubmit unchanged userInput st)
       \<and> isLoading (handleSubmit env userInput st) = isLoading (handleSubmit unchanged userInput st)
       \<and> loadingStatus (handleSubmit env userInput st)
           = loadingStatus (handleSubmit unchanged userInput st)
       \<and> world (handleSubmit env userInput st) = world (handleSubmit unchanged userInput st)"
proof (cases "trim userInput = []")
  case True
  then show ?thesis by (simp add: handleSubmit_def)
next
  case False
  let ?ms = "messages st"
  let ?st1 = "st\<lparr>messages := ?ms @ [userTurn userInput], isLoading := True\<rparr>"
  have g: "generateContent env = generateContent unchanged" and f: "fetch env = fetch unchanged"
    by (simp_all add: assms)
  obtain r u where p: "stages env (apiSettings st) ?ms userInput 0 [] ?st1 = (r, u)"
    by (cases "stages env (apiSettings st) ?ms userInput 0 [] ?st1")
  obtain r' u' where p': "stages unchanged (apiSettings st) ?ms userInput 0 [] ?st1 = (r', u')"
    by (cases "stages unchanged (apiSettings st) ?ms userInput 0 [] ?st1")
  have "sameRun ?st1 ?st1" by (simp add: sameRun_def)
  from stages_sameRun [OF g f this, of "apiSettings st" ?ms userInput 0 "[]"]
  have r: "r' = r" and u: "sameRun u u'" by (simp_all add: p p')
  have "sameRun (handleSubmit env userInput st) (handleSubmit unchanged userInput st)"
    using False p p' r u
    by (simp add: handleSubmit_def Let_def pipeline_stages sameRun_def split: sum.splits)
  then show ?thesis by (simp add: sameRun_def)
qed

lemma switching_google_call:
  "world st = t # ts \<Longrightarrow> awaitCall switching googleSettings c sys st
     = (Inr t, st\<lparr>world := ts,
                   requests := requests st @ [GenerateContent (googleParams googleSettings c sys)],
                   calls := calls st @ [\<lparr>c_contents = c, c_systemInstruction = sys, c_status = loadingStatus st, c_result = Inr t\<rparr>],
                   apiSettings := (if length ts = 5 then groqSettings else apiSettings st),
                   localStorage := (if length ts = 5 then Some groqSettings else localStorage st)\<rparr>)"
  by (simp add: awaitCall_def callGenerativeAI_def switching_def scripted_def googleSettings_def
        googleParams_def eventLoop_def handleSaveSettings_def lit_def)

theorem settings_change_mid_flight_has_no_effect_witness:
  "requests (handleSubmit switching (lit ''hi'') (startState googleSettings tenTexts))
     = requests (handleSubmit scripted (lit ''hi'') (startState googleSettings tenTexts))
   \<and> calls (handleSubmit switching (lit ''hi'') (startState googleSettings tenTexts))
     = calls (handleSubmit scripted (lit ''hi'') (startState googleSettings tenTexts))
   \<and> apiSettings (handleSubmit switching (lit ''hi'') (startState googleSettings tenTexts))
     = groqSettings
   \<and> googleSettings \<noteq> groqSettings"
proof -
  have u: "scripted = switching\<lparr>saves := (\<lambda>w. [])\<rparr>"
    by (simp add: switching_def scripted_def)
  have a: "apiSettings (handleSubmit switching (lit ''hi'') (startState googleSettings tenTexts))
     = groqSettings"
    by (simp add: handleSubmit_def pipeline_def initialLoop_unroll refineLoop_unroll Let_def
          switching_google_call startState_def tenTexts_def trim_hi templates)
  have d: "googleSettings \<noteq> groqSettings"
    by (simp add: googleSettings_def groqSettings_def)
  show ?thesis
    using settings_change_mid_flight_has_no_effect [OF u, of "lit ''hi''" "startState googleSettings tenTexts"] a d
    by simp
qed

text \<open>
  C10. Any two initializer calls of one request that were issued have the same input: the
  conversation snapshot followed by the planned turn (a user turn with the user query in
  quotes after "User Query: ", then the plan, converted to a string, after "Execution
  Plan:"), and the initializer instruction. The slot index shows in the progress label
  only. With a deterministic provider their outcomes are equal.
\<close>

theorem initializer_calls_share_their_input:
  assumes "L = issued st (handleSubmit env userInput st)"
    and "i < 4" and "j < 4" and "1 + i < length L" and "1 + j < length L"
  shows "(\<exists>plan planText.
           c_result (L ! 0) = Inr plan
         \<and> toString plan = Inr planText
         \<and> c_contents (L ! (1 + i)) =
             messages st
             @ [\<lparr>role = lit ''user'', parts = [\<lparr>part_text = JStr
                  (lit ''User Query: \"'' @ userInput
                   @ lit ''\"\<newline>\<newline>Execution Plan:\<newline>'' @ planText)\<rparr>]\<rparr>]
         \<and> c_contents (L ! (1 + j)) = c_contents (L ! (1 + i))
         \<and> c_systemInstruction (L ! (1 + i)) = INITIAL_SYSTEM_INSTRUCTION
         \<and> c_systemInstruction (L ! (1 + j)) = INITIAL_SYSTEM_INSTRUCTION
         \<and> c_status (L ! (1 + i)) =
             lit ''Initializing agent '' @ [lit ''1'', lit ''2'', lit ''3'', lit ''4''] ! i
             @ lit ''/4: Generating analysis...''
         \<and> (deterministic env \<longrightarrow> c_result (L ! (1 + j)) = c_result (L ! (1 + i))))
       \<and> toString (JStr text) = Inr text"
proof -
  have ne: "trim userInput \<noteq> []"
    using assms(1,4) issued_blank [of userInput st env] by auto
  obtain L' where L': "calls (handleSubmit env userInput st) = calls st @ L'"
      "conforms (messages st) userInput L'" "\<forall>c \<in> set (butlast L'). succeeded c"
      "genuine env (apiSettings st) L'"
    using handleSubmit_trace [OF ne, of env st] by metis
  have LL: "L' = L" using L'(1) assms(1) by (simp add: issued_append)
  let ?plan = "valueOf (c_result (L ! 0))"
  have plan: "c_result (L ! 0) = Inr ?plan"
    using early_calls_succeeded [OF L'(3) [unfolded LL], of 0] assms(4) by simp
  have at: "\<exists>q. userQueryWithPlan userInput ?plan = Inr q
          \<and> c_contents (L ! (1 + n)) = messages st @ [userTurn q]
          \<and> c_systemInstruction (L ! (1 + n)) = INITIAL_SYSTEM_INSTRUCTION
          \<and> c_status (L ! (1 + n)) = initStatus n"
    if n4: "n < 4" and nl: "1 + n < length L" for n
  proof -
    obtain turn where "stageTurn userInput L (1 + n) = Inr turn"
        "c_contents (L ! (1 + n)) = messages st @ [turn]"
        "c_systemInstruction (L ! (1 + n)) = stageInstruction (1 + n)"
        "c_status (L ! (1 + n)) = stageStatus (1 + n)"
      using L'(2) nl unfolding LL conforms_def by blast
    then show ?thesis
      using n4
      by (auto simp: stageTurn_def stageInstruction_def stageStatus_def split: sum.splits)
  qed
  obtain q where q: "userQueryWithPlan userInput ?plan = Inr q"
      and ati: "c_contents (L ! (1 + i)) = messages st @ [userTurn q]"
        "c_systemInstruction (L ! (1 + i)) = INITIAL_SYSTEM_INSTRUCTION"
        "c_status (L ! (1 + i)) = initStatus i"
    using at [OF assms(2,4)] by blast
  have atj: "c_contents (L ! (1 + j)) = messages st @ [userTurn q]"
        "c_systemInstruction (L ! (1 + j)) = INITIAL_SYSTEM_INSTRUCTION"
    using at [OF assms(3,5)] q by auto
  from q obtain planText where p: "toString ?plan = Inr planText"
      "q = lit ''User Query: \"'' @ userInput
           @ lit ''\"\<newline>\<newline>Execution Plan:\<newline>'' @ planText"
    unfolding userQueryWithPlan_Inr by blast
  have gen: "\<exists>u. c_result (L ! (1 + n))
        = fst (callGenerativeAI env (apiSettings st) (c_contents (L ! (1 + n)))
                 (c_systemInstruction (L ! (1 + n))) u)"
    if "1 + n < length L" for n
    using L'(4) that unfolding LL genuine_def by (metis nth_mem)
  have det: "deterministic env \<longrightarrow> c_result (L ! (1 + j)) = c_result (L ! (1 + i))"
  proof
    assume d: "deterministic env"
    obtain u u' where "c_result (L ! (1 + i))
        = fst (callGenerativeAI env (apiSettings st) (c_contents (L ! (1 + i)))
                 (c_systemInstruction (L ! (1 + i))) u)"
      and "c_result (L ! (1 + j))
        = fst (callGenerativeAI env (apiSettings st) (c_contents (L ! (1 + j)))
                 (c_systemInstruction (L ! (1 + j))) u')"
      using gen [OF assms(4)] gen [OF assms(5)] by blast
    then show "c_result (L ! (1 + j)) = c_result (L ! (1 + i))"
      using ati atj callGenerativeAI_deterministic [OF d]
      by metis
  qed
  from assms(2) consider "i = 0" | "i = 1" | "i = 2" | "i = 3" by linarith
  then have label: "c_status (L ! (1 + i)) =
             lit ''Initializing agent '' @ [lit ''1'', lit ''2'', lit ''3'', lit ''4''] ! i
             @ lit ''/4: Generating analysis...''"
    unfolding ati(3) by cases (simp_all add: initStatus_def digits.simps lit_def)
  have con: "c_contents (L ! (1 + i)) =
             messages st
             @ [\<lparr>role = lit ''user'', parts = [\<lparr>part_text = JStr
                  (lit ''User Query: \"'' @ userInput
                   @ lit ''\"\<newline>\<newline>Execution Plan:\<newline>'' @ planText)\<rparr>]\<rparr>]"
    unfolding ati(1) p(2) by (simp add: userTurn_def)
  have eq: "c_contents (L ! (1 + j)) = c_contents (L ! (1 + i))"
    using ati(1) atj(1) by simp
  show ?thesis
    by (rule conjI, rule exI [of _ ?plan], rule exI [of _ planText], intro conjI)
       (fact plan p(1) con eq ati(2) atj(2) label det toString_string)+
qed

lemma unchanging_google_call:
  "awaitCall unchanging googleSettings c sys st
     = (Inr (JStr (lit ''same'')),
        st\<lparr>requests := requests st @ [GenerateContent (googleParams googleSettings c sys)],
           calls := calls st @ [\<lparr>c_contents = c, c_systemInstruction = sys,
                                  c_status = loadingStatus st,
                                  c_result = Inr (JStr (lit ''same''))\<rparr>]\<rparr>)"
  by (simp add: awaitCall_def callGenerativeAI_def unchanging_def googleSettings_def
        googleParams_def eventLoop_def lit_def)

lemma unchanging_run:
  "map (\<lambda>c. (c_status c, c_result c))
     (issued (startState googleSettings ())
        (handleSubmit unchanging (lit ''hi'') (startState googleSettings ())))
   = [(stageStatus 0, Inr (JStr (lit ''same''))),
      (initStatus 0, Inr (JStr (lit ''same''))), (initStatus 1, Inr (JStr (lit ''same''))),
      (initStatus 2, Inr (JStr (lit ''same''))), (initStatus 3, Inr (JStr (lit ''same''))),
      (refineStatus 0, Inr (JStr (lit ''same''))), (refineStatus 1, Inr (JStr (lit ''same''))),
      (refineStatus 2, Inr (JStr (lit ''same''))), (refineStatus 3, Inr (JStr (lit ''same''))),
      (stageStatus 9, Inr (JStr (lit ''same'')))]"
  by (simp add: handleSubmit_def pipeline_def initialLoop_unroll refineLoop_unroll Let_def
       unchanging_google_call startState_def trim_hi issued_def stageStatus_def templates
       initStatus_def refineStatus_def)

theorem initializer_calls_share_their_input_witness:
  "c_contents (issued (startState googleSettings ())
        (handleSubmit unchanging (lit ''hi'') (startState googleSettings ())) ! 2)
     = [\<lparr>role = lit ''user'', parts = [\<lparr>part_text = JStr
          (lit ''User Query: \"hi\"\<newline>\<newline>Execution Plan:\<newline>same'')\<rparr>]\<rparr>]
   \<and> c_contents (issued (startState googleSettings ())
        (handleSubmit unchanging (lit ''hi'') (startState googleSettings ())) ! 4)
     = c_contents (issued (startState googleSettings ())
        (handleSubmit unchanging (lit ''hi'') (startState googleSettings ())) ! 2)
   \<and> c_result (issued (startState googleSettings ())
        (handleSubmit unchanging (lit ''hi'') (startState googleSettings ())) ! 4)
     = c_result (issued (startState googleSettings ())
        (handleSubmit unchanging (lit ''hi'') (startState googleSettings ())) ! 2)
   \<and> c_status (issued (startState googleSettings ())
        (handleSubmit unchanging (lit ''hi'') (startState googleSettings ())) ! 2)
     = lit ''Initializing agent 2/4: Generating analysis...''
   \<and> c_status (issued (startState googleSettings ())
        (handleSubmit unchanging (lit ''hi'') (startState googleSettings ())) ! 4)
     = lit ''Initializing agent 4/4: Generating analysis...''
   \<and> deterministic unchanging"
proof -
  let ?st = "startState googleSettings ()"
  let ?L = "issued ?st (handleSubmit unchanging (lit ''hi'') ?st)"
  have len: "length ?L = 10"
    using arg_cong [OF unchanging_run, of length] by simp
  have d: "deterministic unchanging"
    by (simp add: deterministic_def unchanging_def)
  have i: "(1::nat) < 4" and j: "(3::nat) < 4" by simp_all
  have li: "1 + 1 < length ?L" and lj: "1 + 3 < length ?L" using len by simp_all
  have r0: "c_result (?L ! 0) = Inr (JStr (lit ''same''))"
  proof -
    have "c_result (?L ! 0) = snd (map (\<lambda>c. (c_status c, c_result c)) ?L ! 0)"
      using len by simp
    then show ?thesis unfolding unchanging_run by simp
  qed
  have s4: "c_status (?L ! 4) = lit ''Initializing agent 4/4: Generating analysis...''"
  proof -
    have "c_status (?L ! 4) = fst (map (\<lambda>c. (c_status c, c_result c)) ?L ! 4)"
      using len by simp
    then show ?thesis unfolding unchanging_run
      by (simp add: initStatus_def digits.simps lit_def)
  qed
  have e: "(1::nat) + 1 = 2" "(1::nat) + 3 = 4" by simp_all
  have m: "messages ?st = []" by (simp add: startState_def)
  note t = initializer_calls_share_their_input [OF refl i j li lj, THEN conjunct1]
  from t [unfolded e m] obtain plan planText where
      pl: "c_result (?L ! 0) = Inr plan" "toString plan = Inr planText"
      and c: "c_contents (?L ! 2) = [] @ [\<lparr>role = lit ''user'', parts = [\<lparr>part_text = JStr
                  (lit ''User Query: \"'' @ lit ''hi''
                   @ lit ''\"\<newline>\<newline>Execution Plan:\<newline>'' @ planText)\<rparr>]\<rparr>]"
        "c_contents (?L ! 4) = c_contents (?L ! 2)"
        "c_status (?L ! 2) =
             lit ''Initializing agent '' @ [lit ''1'', lit ''2'', lit ''3'', lit ''4''] ! 1
             @ lit ''/4: Generating analysis...''"
        "deterministic unchanging \<longrightarrow> c_result (?L ! 4) = c_result (?L ! 2)"
    by (elim exE conjE) (rule that, assumption+)
  have "planText = lit ''same''" using pl r0 by auto
  then show ?thesis using c d s4 by (simp add: lit_def)
qed

section \<open>The adapter: credentials, requests and error responses\<close>

lemma awaitCall_no_key:
  assumes "selectedKey s = []"
  shows "awaitCall env s c sys st =
     (Inl (keyMissing (provider s)),
      eventLoop env (st\<lparr>calls := calls st @ [\<lparr>c_contents = c, c_systemInstruction = sys,
                             c_status = loadingStatus st,
                             c_result = Inl (keyMissing (provider s))\<rparr>]\<rparr>))"
  by (simp add: awaitCall_def callGenerativeAI_no_key [OF assms])

text \<open>
  C4. If the credential of the selected provider is the empty string, the adapter throws
  the error "... API key is missing." and leaves the state as it was; a submission then
  sends no request to any provider, leaves the world untouched, issues the strategize
  call only, and displays that error's message.
\<close>

theorem missing_credential_fails_before_any_request:
  assumes "selectedKey settings = []" and "apiSettings st = settings"
  shows "callGenerativeAI env settings contents systemInstruction st
           = (Inl (keyMissing (provider settings)), st)
       \<and> sent st (handleSubmit env userInput st) = []
       \<and> world (handleSubmit env userInput st) = world st
       \<and> (trim userInput \<noteq> [] \<longrightarrow>
            messages (handleSubmit env userInput st)
              = messages st @ [userTurn userInput,
                                modelMessage (JStr (errorMessage (keyMissing (provider settings))))]
          \<and> map c_result (issued st (handleSubmit env userInput st))
              = [Inl (keyMissing (provider settings))])"
proof (cases "trim userInput = []")
  case True
  then show ?thesis
    using assms by (simp add: callGenerativeAI_no_key handleSubmit_def sent_def)
next
  case False
  let ?st1 = "st\<lparr>messages := messages st @ [userTurn userInput], isLoading := True,
                  loadingStatus := lit ''Strategizing: Formulating optimal approach...''\<rparr>"
  let ?e = "\<lparr>c_contents = map (\<lambda>msg. msg) (messages st) @ [userTurn userInput],
              c_systemInstruction = STRATEGIST_SYSTEM_INSTRUCTION,
              c_status = lit ''Strategizing: Formulating optimal approach...'',
              c_result = Inl (keyMissing (provider settings))\<rparr>"
  let ?st2 = "eventLoop env (?st1\<lparr>calls := calls st @ [?e]\<rparr>)"
  have p: "pipeline env settings (messages st @ [userTurn userInput]) userInput
             (st\<lparr>messages := messages st @ [userTurn userInput], isLoading := True\<rparr>)
           = (Inl (keyMissing (provider settings)), ?st2)"
    by (simp add: pipeline_def Let_def awaitCall_no_key [OF assms(1)])
  obtain a l where e: "?st2 = ?st1\<lparr>calls := calls st @ [?e], apiSettings := a, localStorage := l\<rparr>"
    using eventLoop_frame [of env "?st1\<lparr>calls := calls st @ [?e]\<rparr>"] by auto
  have h: "handleSubmit env userInput st =
      ?st2\<lparr>isLoading := False,
            messages := messages ?st2
               @ [modelMessage (JStr (errorMessage (keyMissing (provider settings))))]\<rparr>"
    using False assms(2) p by (simp add: handleSubmit_def Let_def)
  show ?thesis
    unfolding h e using assms(1) False
    by (simp add: callGenerativeAI_no_key sent_def issued_def)
qed

theorem missing_credential_fails_before_any_request_witness:
  "sent (startState groqWithoutKey tenTexts)
        (handleSubmit scripted (lit ''hi'') (startState groqWithoutKey tenTexts)) = []
   \<and> messages (handleSubmit scripted (lit ''hi'') (startState groqWithoutKey tenTexts))
        = [userTurn (lit ''hi''), modelMessage (JStr (lit ''groq API key is missing.''))]
   \<and> world (handleSubmit scripted (lit ''hi'') (startState groqWithoutKey tenTexts)) = tenTexts"
proof -
  have k: "selectedKey groqWithoutKey = []"
    by (simp add: selectedKey_def groqWithoutKey_def)
  have a: "apiSettings (startState groqWithoutKey tenTexts) = groqWithoutKey"
    by (simp add: startState_def)
  have m: "errorMessage (keyMissing (provider groqWithoutKey)) = lit ''groq API key is missing.''"
    by (simp add: errorMessage_def keyMissing_def groqWithoutKey_def)
  from missing_credential_fails_before_any_request [OF k a, of scripted _ _ "lit ''hi''"]
  show ?thesis
    using trim_hi by (simp add: m startState_def)
qed









text \<open>
  What the adapter makes of a response that is not \<open>ok\<close> and whose body is JSON: the
  upstream message when \<open>error.message\<close> is a non-empty string, "Unknown error" when the
  body is an object without it, a \<open>TypeError\<close> when the body is \<open>null\<close>.
\<close>

lemma json_error_body_message:
  "m \<noteq> [] \<Longrightarrow>
     readResponse p (Inr \<lparr>status = 429,
        json = Inr (JObj [(lit ''error'', JObj [(lit ''message'', JStr m)])])\<rparr>)
       = Inl (Exception Error (lit ''API Error from '' @ providerName p @ lit '': '' @ m))"
  "readResponse p (Inr \<lparr>status = 429, json = Inr (JObj [])\<rparr>)
       = Inl (Exception Error
                (lit ''API Error from '' @ providerName p @ lit '': '' @ lit ''Unknown error''))"
  "readResponse p (Inr \<lparr>status = 429, json = Inr JNull\<rparr>)
       = Inl (cannotRead (lit ''null'') (lit ''error''))"
  by (simp_all add: readResponse_def upstreamMessage_def optionalMember_def ok_def lit_def)

text \<open>
  C8 fails on the code. A response that is not \<open>ok\<close> and whose body is not JSON (a
  gateway's HTML page) makes \<open>response.json()\<close> reject; the adapter fails with that
  \<open>SyntaxError\<close>, and the parser's message is displayed, not "Unknown error".
\<close>

theorem non_json_error_body_is_not_reported_as_unknown_error:
  "fst (callGenerativeAI badGateway groqSettings [userTurn (lit ''hi'')]
          STRATEGIST_SYSTEM_INSTRUCTION (startState groqSettings ())) = Inl notJson
   \<and> notJson \<noteq> Exception Error (lit ''API Error from groq: Unknown error'')
   \<and> messages (handleSubmit badGateway (lit ''hi'') (startState groqSettings ()))
       = [userTurn (lit ''hi''),
          modelMessage (JStr (lit ''Unexpected token < in JSON at position 0''))]"
proof -
  have g: "provider groqSettings \<noteq> google" "selectedKey groqSettings \<noteq> []"
    by (simp_all add: groqSettings_def selectedKey_def lit_def)
  have c: "callGenerativeAI badGateway groqSettings [userTurn t] sys st
      = (Inl notJson,
         st\<lparr>requests := requests st
              @ [Fetch (chatRequest groqSettings
                   ((if sys \<noteq> [] then [\<lparr>m_role = lit ''system'', m_content = sys\<rparr>] else [])
                    @ [\<lparr>m_role = lit ''user'', m_content = t\<rparr>]))]\<rparr>)"
    for t sys and st :: "unit state"
    unfolding callGenerativeAI_openai [OF g messagesForApi_userTurn]
    by (simp add: badGateway_def readResponse_def ok_def)
  have a: "awaitCall badGateway groqSettings [userTurn t] sys st
      = (Inl notJson,
         st\<lparr>requests := requests st
              @ [Fetch (chatRequest groqSettings
                   ((if sys \<noteq> [] then [\<lparr>m_role = lit ''system'', m_content = sys\<rparr>] else [])
                    @ [\<lparr>m_role = lit ''user'', m_content = t\<rparr>]))],
            calls := calls st @ [\<lparr>c_contents = [userTurn t], c_systemInstruction = sys,
                                   c_status = loadingStatus st, c_result = Inl notJson\<rparr>]\<rparr>)"
    for t sys and st :: "unit state"
  proof -
    have "eventLoop badGateway u = u" for u :: "unit state"
      by (simp add: eventLoop_def badGateway_def)
    then show ?thesis by (simp add: awaitCall_def c)
  qed
  have "messages (handleSubmit badGateway (lit ''hi'') (startState groqSettings ()))
       = [userTurn (lit ''hi''),
          modelMessage (JStr (lit ''Unexpected token < in JSON at position 0''))]"
    by (simp add: handleSubmit_def pipeline_def Let_def a trim_hi startState_def
          errorMessage_def notJson_def)
  then show ?thesis
    by (simp add: c notJson_def)
qed

end
